theory Spec2Isabelle
  imports Main
begin

section \<open>Strings\<close>

text \<open>
  A Python \<open>str\<close> is modelled as a \<^typ>\<open>string\<close>: each \<^typ>\<open>char\<close> stands for one code
  point below 256, so the model covers the strings whose characters lie in that range (ASCII
  and the Latin-1 supplement). The character classes of \<open>re\<close>, \<open>str.strip\<close> and \<open>int\<close>
  are given for that range as CPython has them.
\<close>

abbreviation SQ :: char where "SQ \<equiv> CHR 0x27"
abbreviation DQ :: char where "DQ \<equiv> CHR 0x22"
abbreviation BS :: char where "BS \<equiv> CHR 0x5C"
abbreviation NL :: char where "NL \<equiv> CHR 0x0A"

definition code_point :: "char \<Rightarrow> nat" where
  "code_point c = of_char c"

text \<open>\<open>s.startswith(p)\<close>\<close>

definition startswith :: "string \<Rightarrow> string \<Rightarrow> bool" where
  "startswith s p = (take (length p) s = p)"

text \<open>\<open>sub in s\<close> for strings\<close>

fun str_in :: "string \<Rightarrow> string \<Rightarrow> bool" where
  "str_in sub [] = (sub = [])"
| "str_in sub (c # cs) = (startswith (c # cs) sub \<or> str_in sub cs)"

text \<open>\<open>s[i]\<close> for \<open>0 \<le> i\<close>; \<open>None\<close> where Python raises \<open>IndexError\<close>\<close>

definition str_index :: "string \<Rightarrow> nat \<Rightarrow> char option" where
  "str_index s i = (if i < length s then Some (s ! i) else None)"

text \<open>\<open>s[a:b]\<close> for \<open>0 \<le> a\<close> and \<open>0 \<le> b\<close>\<close>

definition slice :: "string \<Rightarrow> nat \<Rightarrow> nat \<Rightarrow> string" where
  "slice s a b = take (b - a) (drop a s)"

text \<open>
  \<open>s.replace(old, new)\<close>: the occurrences of \<open>old\<close> are found from the left and do not
  overlap. \<open>replace_from\<close> is the scan for a non-empty \<open>old\<close>.
\<close>

fun replace_from :: "string \<Rightarrow> string \<Rightarrow> string \<Rightarrow> string" where
  "replace_from old new [] = []"
| "replace_from old new (c # cs) =
     (if startswith (c # cs) old
      then new @ replace_from old new (drop (length old - 1) cs)
      else c # replace_from old new cs)"

definition str_replace :: "string \<Rightarrow> string \<Rightarrow> string \<Rightarrow> string" where
  "str_replace s old new =
     (if old = [] then new @ concat (map (\<lambda>c. c # new) s) else replace_from old new s)"

text \<open>\<open>str.isspace\<close> on one character, and \<open>s.strip()\<close>\<close>

definition isspace :: "char \<Rightarrow> bool" where
  "isspace c = (code_point c \<in> {9, 10, 11, 12, 13, 28, 29, 30, 31, 32, 133, 160})"

definition strip :: "string \<Rightarrow> string" where
  "strip s = rev (dropWhile isspace (rev (dropWhile isspace s)))"

text \<open>\<open>s.split(sep)\<close> for a separator of one character\<close>

fun split_char :: "char \<Rightarrow> string \<Rightarrow> string list" where
  "split_char sep [] = [[]]"
| "split_char sep (c # cs) =
     (case split_char sep cs of
        [] \<Rightarrow> (if c = sep then [[], []] else [[c]])
      | w # ws \<Rightarrow> (if c = sep then [] # w # ws else (c # w) # ws))"

text \<open>\<open>sep.join(words)\<close>\<close>

fun join :: "string \<Rightarrow> string list \<Rightarrow> string" where
  "join sep [] = []"
| "join sep [w] = w"
| "join sep (w # v # ws) = w @ sep @ join sep (v # ws)"

text \<open>\<open>str(n)\<close> for a natural number\<close>

definition digit_char :: "nat \<Rightarrow> char" where
  "digit_char d = char_of (48 + d)"

function str_of_nat :: "nat \<Rightarrow> string" where
  "str_of_nat n = (if n < 10 then [digit_char n] else str_of_nat (n div 10) @ [digit_char (n mod 10)])"
  by pat_completeness auto
termination
  by (relation "measure id") auto

declare str_of_nat.simps [simp del]

section \<open>Regular expressions of the source\<close>

definition is_ascii_letter :: "char \<Rightarrow> bool" where
  "is_ascii_letter c = ((65 \<le> code_point c \<and> code_point c \<le> 90) \<or> (97 \<le> code_point c \<and> code_point c \<le> 122))"

definition is_ascii_digit :: "char \<Rightarrow> bool" where
  "is_ascii_digit c = (48 \<le> code_point c \<and> code_point c \<le> 57)"

text \<open>
  The class \<open>\w\<close> of a \<open>str\<close> pattern: the ASCII letters and digits, the underscore, and
  every other character that \<open>str.isalnum\<close> accepts; below 256 those are the feminine and
  masculine ordinal indicators, the micro sign, the superscript digits, the vulgar
  fractions and the accented letters.
\<close>

definition re_word :: "char \<Rightarrow> bool" where
  "re_word c =
     (is_ascii_letter c \<or> is_ascii_digit c \<or> c = CHR ''_''
      \<or> code_point c \<in> {170, 178, 179, 181, 185, 186, 188, 189, 190}
      \<or> (192 \<le> code_point c \<and> code_point c \<le> 214)
      \<or> (216 \<le> code_point c \<and> code_point c \<le> 246)
      \<or> 248 \<le> code_point c)"

text \<open>
  \<open>re.match(r'^[a-zA-Z_]\w*$', s) is not None\<close>. In a pattern without \<open>re.MULTILINE\<close> the
  anchor \<open>$\<close> matches at the end of the string and also just before a newline that is the
  last character, and \<open>\w\<close> does not match a newline: after the first character the longest
  run of word characters must be followed by nothing or by exactly one final newline.
\<close>

definition re_match_name :: "string \<Rightarrow> bool" where
  "re_match_name s =
     (case s of
        [] \<Rightarrow> False
      | c # cs \<Rightarrow>
          (is_ascii_letter c \<or> c = CHR ''_'')
          \<and> (dropWhile re_word cs = [] \<or> dropWhile re_word cs = [NL]))"

text \<open>
  A match of \<open>\$\{([^}]+)\}\<close>: where it starts, its group 1, and where it ends.
  \<open>match_at\<close> tries the pattern at the head of a text: the group is the longest run of
  characters other than \<open>}\<close>, it must not be empty, and a \<open>}\<close> must follow it.
\<close>

type_synonym rematch = "nat \<times> string \<times> nat"

definition match_at :: "string \<Rightarrow> string option" where
  "match_at s =
     (case s of
        c1 # c2 # rest \<Rightarrow>
          (if c1 = CHR ''$'' \<and> c2 = CHR ''{''
              \<and> takeWhile (\<lambda>c. c \<noteq> CHR ''}'') rest \<noteq> []
              \<and> length (takeWhile (\<lambda>c. c \<noteq> CHR ''}'') rest) < length rest
           then Some (takeWhile (\<lambda>c. c \<noteq> CHR ''}'') rest)
           else None)
      | _ \<Rightarrow> None)"

text \<open>
  \<open>pattern.finditer(cmd)\<close>: the matches from left to right, each search starting where the
  last match ended. \<open>pos\<close> is the index in \<open>cmd\<close> of the head of the text still to scan.
\<close>

function finditer_from :: "nat \<Rightarrow> string \<Rightarrow> rematch list" where
  "finditer_from pos [] = []"
| "finditer_from pos (c # cs) =
     (case match_at (c # cs) of
        Some name \<Rightarrow>
          (pos, name, pos + length name + 3)
            # finditer_from (pos + length name + 3) (drop (length name + 2) cs)
      | None \<Rightarrow> finditer_from (Suc pos) cs)"
  by pat_completeness auto
termination
  by (relation "measure (\<lambda>(pos, s). length s)") auto

definition finditer :: "string \<Rightarrow> rematch list" where
  "finditer cmd = finditer_from 0 cmd"

section \<open>The state of one process\<close>

text \<open>
  What a descriptor refers to, the system calls a process makes, and the state of the
  interpreter process: \<open>os.environ\<close>, the global \<open>logical_pwd\<close>, what it has printed on
  its standard output and standard error, the directory the operating system has for it,
  its descriptor table, and the calls it has made so far.
\<close>

datatype endpoint = Tty | PipeRead nat | PipeWrite nat

datatype syscall =
    SysPipe nat nat
  | SysFork int
  | SysClose nat
  | SysDup2 nat nat
  | SysWaitpid int
  | SysSetpgid
  | SysChdir string
  | SysRead nat

record shell =
  environ :: "string \<rightharpoonup> string"
  logical_pwd :: string
  out_lines :: "string list"
  err_lines :: "string list"
  os_cwd :: string
  fds :: "(nat \<times> endpoint) list"
  nforks :: nat
  npipes :: nat
  calls :: "syscall list"

definition print_out :: "string \<Rightarrow> shell \<Rightarrow> shell" where
  "print_out line s = s\<lparr>out_lines := out_lines s @ [line]\<rparr>"

definition print_err :: "string \<Rightarrow> shell \<Rightarrow> shell" where
  "print_err line s = s\<lparr>err_lines := err_lines s @ [line]\<rparr>"

section \<open>Variable interpolation\<close>

definition is_valid_variable_name :: "string \<Rightarrow> bool" where
  "is_valid_variable_name var_name = re_match_name var_name"

text \<open>
  The closure \<open>replace\<close> of \<open>replace_variables\<close>. It returns \<open>(text, True)\<close> or
  \<open>(None, False)\<close>; the model returns \<open>Some text\<close> for the first and \<open>None\<close> for the second.
  \<open>match.group(0)\<close> is the slice of \<open>cmd\<close> the match covers.
\<close>

definition replace :: "shell \<Rightarrow> string \<Rightarrow> rematch \<Rightarrow> string option \<times> shell" where
  "replace s cmd m =
     (case m of (start, var_name, stop) \<Rightarrow>
        if start > 0 \<and> str_index cmd (start - 1) = Some BS then (Some (slice cmd start stop), s)
        else if is_valid_variable_name var_name
        then (Some (case environ s var_name of Some v \<Rightarrow> v | None \<Rightarrow> []), s)
        else (None, print_err (''mysh: syntax error: invalid characters for variable '' @ var_name) s))"

text \<open>The \<open>for match in matches\<close> loop, with \<open>last_end\<close> and \<open>result\<close> as it goes.\<close>

fun replace_matches ::
  "shell \<Rightarrow> string \<Rightarrow> rematch list \<Rightarrow> nat \<Rightarrow> string list \<Rightarrow> (string \<times> bool) \<times> shell" where
  "replace_matches s cmd [] last_end result = ((concat (result @ [drop last_end cmd]), True), s)"
| "replace_matches s cmd (m # ms) last_end result =
     (case replace s cmd m of
        (None, s') \<Rightarrow> (([], False), s')
      | (Some replacement, s') \<Rightarrow>
          (case m of (start, var_name, stop) \<Rightarrow>
             if start > 0 \<and> str_index cmd (start - 1) = Some BS
             then replace_matches s' cmd ms stop
                    (result @ [slice cmd last_end (start - 1), replacement])
             else replace_matches s' cmd ms stop
                    (result @ [slice cmd last_end start, replacement])))"

definition replace_variables :: "shell \<Rightarrow> string \<Rightarrow> (string \<times> bool) \<times> shell" where
  "replace_variables s cmd = replace_matches s cmd (finditer cmd) 0 []"

section \<open>Word splitting: the \<open>shlex\<close> lexer\<close>

text \<open>
  The lexer of the standard library in the configuration the source uses: POSIX mode,
  \<open>whitespace_split = True\<close>, no punctuation characters, whitespace \<open>' \t\r\n'\<close>,
  quotes \<open>'\<close> and \<open>"\<close>, escape \<open>\\<close>, escaped quotes \<open>"\<close>. With \<open>whitespace_split\<close> set and
  no punctuation characters every character that is not whitespace, a comment character, a
  quote or the escape is added to the word, so \<open>wordchars\<close> plays no role, the state
  \<open>'c'\<close> is never entered and nothing is pushed back. The states are \<open>None\<close> (\<open>Eof\<close>),
  \<open>' '\<close> (\<open>Blank\<close>), \<open>'a'\<close> (\<open>Word\<close>), a quote character and the escape character.
\<close>

datatype lexstate = Eof | Blank | Word | Quote char | Escape char

definition lex_whitespace :: string where
  "lex_whitespace = [CHR '' '', CHR 0x09, CHR 0x0D, NL]"

definition lex_quotes :: string where
  "lex_quotes = [SQ, DQ]"

definition lex_escape :: string where
  "lex_escape = [BS]"

definition lex_escapedquotes :: string where
  "lex_escapedquotes = [DQ]"

text \<open>\<open>instream.readline()\<close>: what is left after the rest of the line is read.\<close>

fun drop_line :: "string \<Rightarrow> string" where
  "drop_line [] = []"
| "drop_line (c # cs) = (if c = NL then cs else drop_line cs)"

lemma length_drop_line: "length (drop_line cs) \<le> length cs"
  by (induction cs) auto

text \<open>The end of \<open>read_token\<close>: an empty token that was not quoted is \<open>None\<close>.\<close>

definition token_result :: "string \<Rightarrow> bool \<Rightarrow> string option" where
  "token_result token quoted = (if \<not> quoted \<and> token = [] then None else Some token)"

text \<open>
  \<open>read_token\<close>, one character of the input per turn of its loop. The arguments are the
  comment characters, \<open>self.state\<close>, \<open>self.token\<close>, \<open>quoted\<close>, \<open>escapedstate\<close> and the
  input not yet read; the result is the message of the \<open>ValueError\<close> raised, or the token
  returned with the state and the input left.
\<close>

function read_token ::
  "string \<Rightarrow> lexstate \<Rightarrow> string \<Rightarrow> bool \<Rightarrow> lexstate \<Rightarrow> string
     \<Rightarrow> string + (string option \<times> lexstate \<times> string)" where
  "read_token cm Eof token quoted es inp = Inr (token_result [] quoted, Eof, tl inp)"
| "read_token cm Blank token quoted es [] = Inr (token_result token quoted, Eof, [])"
| "read_token cm Blank token quoted es (c # cs) =
     (if c \<in> set lex_whitespace
      then (if token \<noteq> [] \<or> quoted then Inr (token_result token quoted, Blank, cs)
            else read_token cm Blank token quoted es cs)
      else if c \<in> set cm then read_token cm Blank token quoted es (drop_line cs)
      else if c \<in> set lex_escape then read_token cm (Escape c) token quoted Word cs
      else if c \<in> set lex_quotes then read_token cm (Quote c) token quoted es cs
      else read_token cm Word [c] quoted es cs)"
| "read_token cm (Quote q) token quoted es [] = Inl ''No closing quotation''"
| "read_token cm (Quote q) token quoted es (c # cs) =
     (if c = q then read_token cm Word token True es cs
      else if c \<in> set lex_escape \<and> q \<in> set lex_escapedquotes
      then read_token cm (Escape c) token True (Quote q) cs
      else read_token cm (Quote q) (token @ [c]) True es cs)"
| "read_token cm (Escape e) token quoted es [] = Inl ''No escaped character''"
| "read_token cm (Escape e) token quoted es (c # cs) =
     read_token cm es
       ((case es of
           Quote q \<Rightarrow> (if c \<noteq> e \<and> c \<noteq> q then token @ [e] else token)
         | _ \<Rightarrow> token) @ [c])
       quoted es cs"
| "read_token cm Word token quoted es [] = Inr (token_result token quoted, Eof, [])"
| "read_token cm Word token quoted es (c # cs) =
     (if c \<in> set lex_whitespace
      then (if token \<noteq> [] \<or> quoted then Inr (token_result token quoted, Blank, cs)
            else read_token cm Blank token quoted es cs)
      else if c \<in> set cm
      then (if token \<noteq> [] \<or> quoted then Inr (token_result token quoted, Blank, drop_line cs)
            else read_token cm Blank token quoted es (drop_line cs))
      else if c \<in> set lex_quotes then read_token cm (Quote c) token quoted es cs
      else if c \<in> set lex_escape then read_token cm (Escape c) token quoted Word cs
      else read_token cm Word (token @ [c]) quoted es cs)"
  by pat_completeness auto
termination
proof (relation "measure (\<lambda>(cm, st, token, quoted, es, inp). length inp)")
  show "wf (measure (\<lambda>(cm, st, token, quoted, es, inp). length inp))"
    by simp
qed (auto simp: le_imp_less_Suc [OF length_drop_line])

text \<open>
  Every call of \<open>read_token\<close> on input that is not empty reads at least one character, and
  on empty input a call that starts with an empty token returns \<open>None\<close> or raises.
\<close>

lemma read_token_reads:
  "read_token cm st token quoted es inp = Inr (r, st', rest) \<Longrightarrow> length rest \<le> length (tl inp)"
proof (induction cm st token quoted es inp rule: read_token.induct)
  case (3 cm token quoted es c cs)
  have "length (tl (drop_line cs)) \<le> length cs" "length (tl cs) \<le> length cs"
    using length_drop_line [of cs] by auto
  with 3 show ?case
    by (auto split: if_splits dest: le_trans)
next
  case (5 cm q token quoted es c cs)
  have "length (tl cs) \<le> length cs"
    by auto
  with 5 show ?case
    by (auto split: if_splits dest: le_trans)
next
  case (7 cm e token quoted es c cs)
  have "length (tl cs) \<le> length cs"
    by auto
  with 7 show ?case
    by (auto dest: le_trans)
next
  case (9 cm token quoted es c cs)
  have "length (tl (drop_line cs)) \<le> length cs" "length (tl cs) \<le> length cs"
    "length (drop_line cs) \<le> length cs"
    using length_drop_line [of cs] by auto
  with 9 show ?case
    by (auto split: if_splits dest: le_trans)
qed auto

lemma read_token_shorter:
  assumes "read_token cm st [] False es inp = Inr (Some tok, st', rest)"
  shows "length rest < length inp"
proof (cases inp)
  case Nil
  with assms show ?thesis
    by (cases st) (auto simp: token_result_def)
next
  case (Cons c cs)
  with read_token_reads [OF assms] show ?thesis
    by simp
qed

text \<open>
  \<open>list(lexer)\<close>: tokens are read until \<open>read_token\<close> returns \<open>None\<close>. Each call starts with
  an empty token, \<open>quoted = False\<close> and \<open>escapedstate = ' '\<close>. The result is the message of
  the \<open>ValueError\<close>, or the tokens with the state the lexer is left in.
\<close>

function lexer_list :: "string \<Rightarrow> lexstate \<Rightarrow> string \<Rightarrow> string + (string list \<times> lexstate)" where
  "lexer_list cm st inp =
     (case read_token cm st [] False Blank inp of
        Inl msg \<Rightarrow> Inl msg
      | Inr (None, st', rest) \<Rightarrow> Inr ([], st')
      | Inr (Some tok, st', rest) \<Rightarrow>
          (case lexer_list cm st' rest of
             Inl msg \<Rightarrow> Inl msg
           | Inr (toks, st'') \<Rightarrow> Inr (tok # toks, st'')))"
  by pat_completeness auto
termination
  by (relation "measure (\<lambda>(cm, st, inp). length inp)") (auto simp: read_token_shorter)

declare lexer_list.simps [simp del]

text \<open>\<open>shlex.split(s)\<close>: no comment characters.\<close>

definition shlex_split :: "string \<Rightarrow> string + string list" where
  "shlex_split s = (case lexer_list [] Blank s of Inl msg \<Rightarrow> Inl msg | Inr (toks, st) \<Rightarrow> Inr toks)"

section \<open>The word tokenizer of the source\<close>

definition SINGLE_QUOTE :: string where
  "SINGLE_QUOTE = ''__SINGLE_QUOTE__''"

definition DOUBLE_QUOTE :: string where
  "DOUBLE_QUOTE = ''__DOUBLE_QUOTE__''"

definition preprocess_command :: "string \<Rightarrow> string" where
  "preprocess_command cmd =
     str_replace (str_replace cmd [BS, SQ] SINGLE_QUOTE) [BS, DQ] DOUBLE_QUOTE"

definition postprocess_args :: "string list \<Rightarrow> string list" where
  "postprocess_args args =
     map (\<lambda>arg. str_replace (str_replace arg SINGLE_QUOTE [SQ]) DOUBLE_QUOTE [DQ]) args"

text \<open>What \<open>postprocess_args\<close> does to one argument.\<close>

definition postprocess_arg :: "string \<Rightarrow> string" where
  "postprocess_arg arg = str_replace (str_replace arg SINGLE_QUOTE [SQ]) DOUBLE_QUOTE [DQ]"

text \<open>
  \<open>custom_split_command\<close>. The lexer is \<open>shlex.shlex(preprocessed_cmd, posix=True)\<close> with
  \<open>whitespace_split = True\<close>; its comment characters stay at the default \<open>#\<close>.
\<close>

definition custom_split_command :: "shell \<Rightarrow> string \<Rightarrow> (string list \<times> bool) \<times> shell" where
  "custom_split_command s cmd =
     (case lexer_list ''#'' Blank (preprocess_command cmd) of
        Inr (args, st) \<Rightarrow>
          (case st of
             Quote q \<Rightarrow> (([], False), print_err ''mysh: syntax error: unterminated quote'' s)
           | _ \<Rightarrow> ((postprocess_args args, True), s))
      | Inl msg \<Rightarrow>
          (if str_in ''No closing quotation'' msg
           then (([], False), print_err ''mysh: syntax error: unterminated quote'' s)
           else (([], False), print_err (''mysh: syntax error: '' @ msg) s)))"

section \<open>Exceptions, the operating system and its calls\<close>

text \<open>
  The exceptions the program can meet, each with the text \<open>str(e)\<close> gives. A computation
  ends by returning (\<open>Inr\<close>), or (\<open>Inl\<close>) by an exception that is still propagating, by
  \<open>sys.exit\<close>, or by \<open>os.execvp\<close> replacing the program of the process.
\<close>

datatype exn =
    ValueError string
  | IndexError string
  | KeyError string
  | TypeError string
  | OSError string
  | FileNotFoundError string
  | NotADirectoryError string
  | PermissionError string

fun exn_str :: "exn \<Rightarrow> string" where
  "exn_str (ValueError m) = m"
| "exn_str (IndexError m) = m"
| "exn_str (KeyError m) = m"
| "exn_str (TypeError m) = m"
| "exn_str (OSError m) = m"
| "exn_str (FileNotFoundError m) = m"
| "exn_str (NotADirectoryError m) = m"
| "exn_str (PermissionError m) = m"

datatype abort = Raise exn | SysExit int | Exec string "string list"

type_synonym 'a result = "abort + 'a"

definition then_do ::
  "'a result \<times> shell \<Rightarrow> ('a \<Rightarrow> shell \<Rightarrow> 'b result \<times> shell) \<Rightarrow> 'b result \<times> shell" where
  "then_do m f = (case m of (Inl a, s) \<Rightarrow> (Inl a, s) | (Inr x, s) \<Rightarrow> f x s)"

text \<open>
  What the operating system answers, seen from one process. \<open>os.fork()\<close> returns 0 in the
  child and the child's identifier in the parent, and raises \<open>OSError\<close> when no process can
  be created; \<open>w_fork w k\<close> is the answer to the \<open>k\<close>-th fork of the process (a negative
  answer is kept because the source has a branch for it). The other fields answer the
  calls on the file system, the password database and the child processes:
  \<open>w_child_output\<close> is what \<open>read()\<close> gives on the pipe of a child, the text the child
  wrote or the exception of a text that cannot be decoded, and \<open>w_int_max_str_digits\<close> is
  \<open>sys.get_int_max_str_digits()\<close>, the limit of the interpreter on the digits of a numeral
  (4300 unless the interpreter was started with another one; 0 is no limit).
\<close>

datatype fork_result = ForkReturns int | ForkRaises string

record world =
  w_fork :: "nat \<Rightarrow> fork_result"
  w_pipe_fails :: "nat \<Rightarrow> bool"
  w_isfile :: "string \<Rightarrow> string \<Rightarrow> bool"
  w_access_x :: "string \<Rightarrow> string \<Rightarrow> bool"
  w_chdir :: "string \<Rightarrow> string \<Rightarrow> exn option"
  w_realpath :: "string \<Rightarrow> string"
  w_pw_dir :: "string \<Rightarrow> string option"
  w_own_pw_dir :: "string option"
  w_setpgid :: "exn option"
  w_execvp :: "string list \<Rightarrow> exn option"
  w_child_output :: "int \<Rightarrow> exn + string"
  w_int_max_str_digits :: nat

text \<open>The lowest descriptor that is not open.\<close>

fun first_free :: "nat list \<Rightarrow> nat \<Rightarrow> nat \<Rightarrow> nat" where
  "first_free used n 0 = n"
| "first_free used n (Suc k) = (if n \<in> set used then first_free used (Suc n) k else n)"

definition lowest_free :: "(nat \<times> endpoint) list \<Rightarrow> nat" where
  "lowest_free t = first_free (map fst t) 0 (length t)"

fun fd_set :: "nat \<Rightarrow> endpoint \<Rightarrow> (nat \<times> endpoint) list \<Rightarrow> (nat \<times> endpoint) list" where
  "fd_set k e [] = [(k, e)]"
| "fd_set k e ((k', e') # t) = (if k' = k then (k, e) # t else (k', e') # fd_set k e t)"

definition os_pipe :: "world \<Rightarrow> shell \<Rightarrow> (nat \<times> nat) result \<times> shell" where
  "os_pipe w s =
     (if w_pipe_fails w (npipes s)
      then (Inl (Raise (OSError ''[Errno 24] Too many open files'')), s\<lparr>npipes := Suc (npipes s)\<rparr>)
      else
        (let read_fd = lowest_free (fds s);
             t1 = fds s @ [(read_fd, PipeRead (npipes s))];
             write_fd = lowest_free t1
         in (Inr (read_fd, write_fd),
             s\<lparr>fds := t1 @ [(write_fd, PipeWrite (npipes s))],
               npipes := Suc (npipes s),
               calls := calls s @ [SysPipe read_fd write_fd]\<rparr>)))"

definition os_close :: "nat \<Rightarrow> shell \<Rightarrow> unit result \<times> shell" where
  "os_close fd s =
     (if fd \<in> set (map fst (fds s))
      then (Inr (), s\<lparr>fds := filter (\<lambda>p. fst p \<noteq> fd) (fds s), calls := calls s @ [SysClose fd]\<rparr>)
      else (Inl (Raise (OSError ''[Errno 9] Bad file descriptor'')), s))"

definition os_dup2 :: "nat \<Rightarrow> nat \<Rightarrow> shell \<Rightarrow> unit result \<times> shell" where
  "os_dup2 fd fd2 s =
     (case map_of (fds s) fd of
        None \<Rightarrow> (Inl (Raise (OSError ''[Errno 9] Bad file descriptor'')), s)
      | Some e \<Rightarrow> (Inr (), s\<lparr>fds := fd_set fd2 e (fds s), calls := calls s @ [SysDup2 fd fd2]\<rparr>))"

definition os_fork :: "world \<Rightarrow> shell \<Rightarrow> int result \<times> shell" where
  "os_fork w s =
     (case w_fork w (nforks s) of
        ForkRaises m \<Rightarrow> (Inl (Raise (OSError m)), s\<lparr>nforks := Suc (nforks s)\<rparr>)
      | ForkReturns pid \<Rightarrow>
          (Inr pid, s\<lparr>nforks := Suc (nforks s), calls := calls s @ [SysFork pid]\<rparr>))"

text \<open>\<open>os.waitpid(pid, 0)\<close> blocks until the child has ended and returns.\<close>

definition os_waitpid :: "int \<Rightarrow> shell \<Rightarrow> shell" where
  "os_waitpid pid s = s\<lparr>calls := calls s @ [SysWaitpid pid]\<rparr>"

text \<open>
  \<open>os.execvp(file, args)\<close> does not return: the program of the process is replaced, or
  \<open>OSError\<close> is raised.
\<close>

definition os_execvp :: "world \<Rightarrow> shell \<Rightarrow> string \<Rightarrow> string list \<Rightarrow> 'a result \<times> shell" where
  "os_execvp w s file args =
     (case w_execvp w args of None \<Rightarrow> (Inl (Exec file args), s) | Some e \<Rightarrow> (Inl (Raise e), s))"

definition getenv :: "shell \<Rightarrow> string \<Rightarrow> string \<Rightarrow> string" where
  "getenv s name dflt = (case environ s name of Some v \<Rightarrow> v | None \<Rightarrow> dflt)"

definition defpath :: string where
  "defpath = ''/bin:/usr/bin''"

section \<open>Paths\<close>

text \<open>\<open>os.path.join(a, b)\<close>\<close>

definition path_join :: "string \<Rightarrow> string \<Rightarrow> string" where
  "path_join a b =
     (if startswith b ''/'' then b
      else if a = [] \<or> last a = CHR ''/'' then a @ b
      else a @ ''/'' @ b)"

text \<open>\<open>os.path.expanduser(path)\<close>\<close>

definition expanduser :: "world \<Rightarrow> shell \<Rightarrow> string \<Rightarrow> string" where
  "expanduser w s path =
     (if \<not> startswith path ''~'' then path
      else
        (let i = length (takeWhile (\<lambda>c. c \<noteq> CHR ''/'') path);
             home = (if i = 1
                     then (case environ s ''HOME'' of Some h \<Rightarrow> Some h | None \<Rightarrow> w_own_pw_dir w)
                     else w_pw_dir w (slice path 1 i))
         in (case home of
               None \<Rightarrow> path
             | Some userhome \<Rightarrow>
                 (let r = rev (dropWhile (\<lambda>c. c = CHR ''/'') (rev userhome)) @ drop i path
                  in if r = [] then ''/'' else r))))"

text \<open>\<open>os.path.normpath(path)\<close>: the loop over the components, then the function.\<close>

fun norm_comps :: "bool \<Rightarrow> string list \<Rightarrow> string list \<Rightarrow> string list" where
  "norm_comps rooted [] new_comps = new_comps"
| "norm_comps rooted (part # comps) new_comps =
     (if part = [] \<or> part = ''.'' then norm_comps rooted comps new_comps
      else if part \<noteq> ''..'' \<or> (\<not> rooted \<and> new_comps = [])
              \<or> (new_comps \<noteq> [] \<and> last new_comps = ''..'')
      then norm_comps rooted comps (new_comps @ [part])
      else if new_comps \<noteq> [] then norm_comps rooted comps (butlast new_comps)
      else norm_comps rooted comps new_comps)"

definition initial_slashes :: "string \<Rightarrow> nat" where
  "initial_slashes path =
     (if startswith path ''/''
      then (if startswith path ''//'' \<and> \<not> startswith path ''///'' then 2 else 1)
      else 0)"

definition normpath :: "string \<Rightarrow> string" where
  "normpath path =
     (if path = [] then ''.''
      else
        (let comps = norm_comps (initial_slashes path \<noteq> 0) (split_char CHR ''/'' path) [];
             p = replicate (initial_slashes path) CHR ''/'' @ join ''/'' comps
         in if p = [] then ''.'' else p))"

text \<open>\<open>os.path.abspath(path)\<close>; \<open>os.getcwd()\<close> is the field \<open>os_cwd\<close>.\<close>

definition abspath :: "shell \<Rightarrow> string \<Rightarrow> string" where
  "abspath s path = normpath (if startswith path ''/'' then path else path_join (os_cwd s) path)"

section \<open>The process launcher\<close>

definition expand_path_in_args :: "world \<Rightarrow> shell \<Rightarrow> string list \<Rightarrow> string list" where
  "expand_path_in_args w s args =
     map (\<lambda>arg. if startswith arg ''~'' then expanduser w s arg else arg) args"

text \<open>The search for the command: \<open>command_path\<close>, or \<open>None\<close>.\<close>

definition resolve_command :: "world \<Rightarrow> shell \<Rightarrow> string \<Rightarrow> string option" where
  "resolve_command w s arg0 =
     (if CHR ''/'' \<in> set arg0
      then (if w_isfile w (os_cwd s) arg0 then Some arg0 else None)
      else
        (case find (\<lambda>path_dir. w_isfile w (os_cwd s) (path_join path_dir arg0))
                (split_char CHR '':'' (getenv s ''PATH'' defpath)) of
           Some path_dir \<Rightarrow> Some (path_join path_dir arg0)
         | None \<Rightarrow> None))"

definition os_setpgid :: "world \<Rightarrow> shell \<Rightarrow> unit result \<times> shell" where
  "os_setpgid w s =
     (case w_setpgid w of
        None \<Rightarrow> (Inr (), s\<lparr>calls := calls s @ [SysSetpgid]\<rparr>)
      | Some e \<Rightarrow> (Inl (Raise e), s))"

text \<open>\<open>try: os.setpgid(0, 0)\<close> \<open>except PermissionError: pass\<close>\<close>

definition try_setpgid :: "world \<Rightarrow> shell \<Rightarrow> unit result \<times> shell" where
  "try_setpgid w s =
     (case os_setpgid w s of
        (Inl (Raise (PermissionError m)), s') \<Rightarrow> (Inr (), s')
      | r \<Rightarrow> r)"

text \<open>
  \<open>os.fdopen(read_fd).read()\<close>: everything the child writes is read, and the file object,
  which nothing refers to afterwards, closes the descriptor, also when the text read
  cannot be decoded and \<open>read\<close> raises.
\<close>

definition read_all :: "nat \<Rightarrow> shell \<Rightarrow> shell" where
  "read_all fd s = s\<lparr>fds := filter (\<lambda>p. fst p \<noteq> fd) (fds s), calls := calls s @ [SysRead fd]\<rparr>"

text \<open>The body of the \<open>try\<close> of \<open>execute_external_command\<close>; \<open>arg0\<close> is \<open>args[0]\<close>.\<close>

definition launch ::
  "world \<Rightarrow> shell \<Rightarrow> string \<Rightarrow> string list \<Rightarrow> bool \<Rightarrow> string option result \<times> shell" where
  "launch w s arg0 args capture_output =
     (if capture_output
      then
        then_do (os_pipe w s) (\<lambda>pipe_pair s1.
        then_do (os_fork w s1) (\<lambda>child_pid s2.
          if child_pid = 0
          then
            then_do (try_setpgid w s2) (\<lambda>u s3.
            then_do (os_close (fst pipe_pair) s3) (\<lambda>u s4.
            then_do (os_dup2 (snd pipe_pair) 1 s4) (\<lambda>u s5.
            then_do (os_close (snd pipe_pair) s5) (\<lambda>u s6.
            os_execvp w s6 arg0 args))))
          else
            then_do (os_close (snd pipe_pair) s2) (\<lambda>u s3.
              (case w_child_output w child_pid of
                 Inl e \<Rightarrow> (Inl (Raise e), read_all (fst pipe_pair) s3)
               | Inr output \<Rightarrow>
                   (Inr (Some output), os_waitpid child_pid (read_all (fst pipe_pair) s3))))))
      else
        then_do (os_fork w s) (\<lambda>child_pid s1.
          if child_pid = 0
          then then_do (try_setpgid w s1) (\<lambda>u s2. os_execvp w s2 arg0 args)
          else (Inr None, os_waitpid child_pid s1)))"

text \<open>\<open>except Exception as e: print(prefix + str(e), file=sys.stderr)\<close>\<close>

definition except_exception ::
  "string \<Rightarrow> 'a \<Rightarrow> 'a result \<times> shell \<Rightarrow> 'a result \<times> shell" where
  "except_exception prefix dflt r =
     (case r of
        (Inl (Raise e), s) \<Rightarrow> (Inr dflt, print_err (prefix @ exn_str e) s)
      | _ \<Rightarrow> r)"

definition execute_external_command ::
  "world \<Rightarrow> shell \<Rightarrow> string list \<Rightarrow> bool \<Rightarrow> string option result \<times> shell" where
  "execute_external_command w s args0 capture_output =
     (case expand_path_in_args w s args0 of
        [] \<Rightarrow> (Inl (Raise (IndexError ''list index out of range'')), s)
      | arg0 # others \<Rightarrow>
          (case resolve_command w s arg0 of
             None \<Rightarrow> (Inr None, print_err (''mysh: command not found: '' @ arg0) s)
           | Some command_path \<Rightarrow>
               if \<not> w_access_x w (os_cwd s) command_path
               then (Inr None, print_err (''mysh: permission denied: '' @ arg0) s)
               else except_exception ''Error executing command: '' None
                      (launch w s arg0 (arg0 # others) capture_output)))"

section \<open>The built-in commands\<close>

text \<open>The \<open>try\<close> of the \<open>-s\<close> form of \<open>var\<close>.\<close>

definition var_capture :: "world \<Rightarrow> shell \<Rightarrow> string \<Rightarrow> string list \<Rightarrow> unit result \<times> shell" where
  "var_capture w s var_name args =
     except_exception ''var: failed to execute command: '' ()
       (if length args \<le> 3 then (Inl (Raise (IndexError ''list index out of range'')), s)
        else
          (case shlex_split (args ! 3) of
             Inl msg \<Rightarrow> (Inl (Raise (ValueError msg)), s)
           | Inr words \<Rightarrow>
               then_do (execute_external_command w s words True) (\<lambda>res s1.
                 case res of
                   None \<Rightarrow> (Inl (Raise (TypeError ''str expected, not NoneType'')), s1)
                 | Some text \<Rightarrow> (Inr (), s1\<lparr>environ := (environ s1)(var_name \<mapsto> text)\<rparr>))))"

definition handle_var_command :: "world \<Rightarrow> shell \<Rightarrow> string list \<Rightarrow> unit result \<times> shell" where
  "handle_var_command w s args =
     (if length args \<le> 1 then (Inr (), print_err ''var: expected 2 arguments, got 0'' s)
      else if startswith (args ! 1) ''-'' \<and> args ! 1 \<noteq> ''-s''
      then
        (case str_index (args ! 1) 1 of
           None \<Rightarrow> (Inl (Raise (IndexError ''string index out of range'')), s)
         | Some c \<Rightarrow> (Inr (), print_err (''var: invalid option: -'' @ [c]) s))
      else
        (let include_sflag = (if startswith (args ! 1) ''-'' then 1 else 0 :: nat) in
         if length args - include_sflag > 3
         then (Inr (), print_err (''var: expected 2 arguments, got ''
                                   @ str_of_nat (length args - include_sflag - 1)) s)
         else if args ! 1 = ''-s'' \<and> length args \<le> 2
         then (Inl (Raise (IndexError ''list index out of range'')), s)
         else
           (let var_name = (if args ! 1 = ''-s'' then args ! 2 else args ! 1) in
            if \<not> re_match_name var_name
            then (Inr (), print_err (''var: invalid characters for variable '' @ var_name) s)
            else if include_sflag = 1 then var_capture w s var_name args
            else (Inr (), s\<lparr>environ := (environ s)(var_name \<mapsto> join '' '' (drop 2 args))\<rparr>))))"

text \<open>
  \<open>handle_cd_command\<close>. \<open>os.chdir\<close> is answered by \<open>w_chdir\<close>; of its errors the source
  catches \<open>FileNotFoundError\<close>, \<open>NotADirectoryError\<close> and \<open>PermissionError\<close>. The
  \<open>KeyError\<close> of \<open>os.environ['HOME']\<close> is not caught.
\<close>

definition cd_target :: "world \<Rightarrow> shell \<Rightarrow> string list \<Rightarrow> string result" where
  "cd_target w s args =
     (if length args > 1 then Inr (expanduser w s (args ! 1))
      else (case environ s ''HOME'' of
              Some home \<Rightarrow> Inr home
            | None \<Rightarrow> Inl (Raise (KeyError ''HOME''))))"

definition cd_to :: "world \<Rightarrow> shell \<Rightarrow> string \<Rightarrow> unit result \<times> shell" where
  "cd_to w s path =
     (let new_logical_pwd = abspath s (path_join (logical_pwd s) path) in
      case w_chdir w (os_cwd s) new_logical_pwd of
        None \<Rightarrow>
          (Inr (), s\<lparr>os_cwd := new_logical_pwd,
                     logical_pwd := new_logical_pwd,
                     environ := (environ s)(''PWD'' \<mapsto> new_logical_pwd),
                     calls := calls s @ [SysChdir new_logical_pwd]\<rparr>)
      | Some (FileNotFoundError m) \<Rightarrow>
          (Inr (), print_err (''cd: no such file or directory: '' @ path) s)
      | Some (NotADirectoryError m) \<Rightarrow> (Inr (), print_err (''cd: not a directory: '' @ path) s)
      | Some (PermissionError m) \<Rightarrow> (Inr (), print_err (''cd: permission denied: '' @ path) s)
      | Some e \<Rightarrow> (Inl (Raise e), s))"

definition handle_cd_command :: "world \<Rightarrow> shell \<Rightarrow> string list \<Rightarrow> unit result \<times> shell" where
  "handle_cd_command w s args =
     (if length args > 2 then (Inr (), print_err ''cd: too many arguments'' s)
      else
        (case cd_target w s args of
           Inl a \<Rightarrow> (Inl a, s)
         | Inr path \<Rightarrow>
             if path = ''-''
             then cd_to w (print_out (getenv s ''OLDPWD'' (logical_pwd s)) s)
                    (getenv s ''OLDPWD'' (logical_pwd s))
             else cd_to w s path))"

text \<open>The loops of \<open>handle_pwd_command\<close>: the message of the first argument refused.\<close>

fun pwd_refused :: "string list \<Rightarrow> string option" where
  "pwd_refused [] = None"
| "pwd_refused (arg # rest) =
     (if \<not> startswith arg ''-'' then Some ''pwd: not expecting any arguments''
      else
        (case find (\<lambda>opt. opt \<noteq> CHR ''P'') (drop 1 arg) of
           Some opt \<Rightarrow> Some (''pwd: invalid option: -'' @ [opt])
         | None \<Rightarrow> pwd_refused rest))"

definition handle_pwd_command :: "world \<Rightarrow> shell \<Rightarrow> string list \<Rightarrow> unit result \<times> shell" where
  "handle_pwd_command w s args =
     (case pwd_refused (drop 1 args) of
        Some msg \<Rightarrow> (Inr (), print_err msg s)
      | None \<Rightarrow>
          (Inr (), print_out (if ''-P'' \<in> set args then w_realpath w (os_cwd s) else logical_pwd s) s))"

definition find_executable :: "world \<Rightarrow> shell \<Rightarrow> string list \<Rightarrow> string \<Rightarrow> string" where
  "find_executable w s path_dirs command =
     (if command \<in> set [''var'', ''pwd'', ''cd'', ''which'', ''exit'']
      then command @ '': shell built-in command''
      else
        (case find (\<lambda>path_dir. w_isfile w (os_cwd s) (path_join path_dir command)
                               \<and> w_access_x w (os_cwd s) (path_join path_dir command)) path_dirs of
           Some path_dir \<Rightarrow> path_join path_dir command
         | None \<Rightarrow> command @ '' not found''))"

definition handle_which_command :: "world \<Rightarrow> shell \<Rightarrow> string list \<Rightarrow> unit result \<times> shell" where
  "handle_which_command w s args =
     (if length args = 1 then (Inr (), print_err ''usage: which command ...'' s)
      else
        (Inr (),
         foldl (\<lambda>st cmd_name.
                  print_out (find_executable w st (split_char CHR '':'' (getenv s ''PATH'' defpath))
                               cmd_name) st)
           s (drop 1 args)))"

text \<open>
  \<open>int(text)\<close> in base 10: white space around the number is dropped, a sign may come first,
  and single underscores may stand between digits. The result is \<open>None\<close> where \<open>int\<close> raises
  \<open>ValueError\<close>, which it also does for a numeral of more than 640 digits whose digits
  are more than the limit \<open>max_str_digits\<close> of the interpreter, unless that limit is 0.
  Underscores, the sign and the white space do not count as digits, leading zeros do.
  (\<open>int\<close> counts the digits before it looks at what follows them; as every failure is the
  same \<open>ValueError\<close> for the caller, the digits are counted here in the whole text.)
\<close>

definition int_space :: "char \<Rightarrow> bool" where
  "int_space c = (code_point c \<in> {9, 10, 11, 12, 13, 32, 133, 160})"

definition digit_val :: "char \<Rightarrow> nat" where
  "digit_val c = code_point c - 48"

fun int_digits :: "nat \<Rightarrow> string \<Rightarrow> nat option" where
  "int_digits acc [] = Some acc"
| "int_digits acc [c] = (if is_ascii_digit c then Some (acc * 10 + digit_val c) else None)"
| "int_digits acc (c # d # ds) =
     (if is_ascii_digit c then int_digits (acc * 10 + digit_val c) (d # ds)
      else if c = CHR ''_'' \<and> is_ascii_digit d then int_digits (acc * 10 + digit_val d) ds
      else None)"

definition int_number :: "string \<Rightarrow> nat option" where
  "int_number text =
     (case text of
        [] \<Rightarrow> None
      | c # cs \<Rightarrow> if is_ascii_digit c then int_digits (digit_val c) cs else None)"

definition exceeds_digit_limit :: "nat \<Rightarrow> string \<Rightarrow> bool" where
  "exceeds_digit_limit max_str_digits text =
     (let digits = length (filter is_ascii_digit text)
      in 640 < digits \<and> 0 < max_str_digits \<and> max_str_digits < digits)"

definition py_int :: "nat \<Rightarrow> string \<Rightarrow> int option" where
  "py_int max_str_digits text =
     (if exceeds_digit_limit max_str_digits text then None
      else
        (case rev (dropWhile int_space (rev (dropWhile int_space text))) of
           [] \<Rightarrow> None
         | c # cs \<Rightarrow>
             if c = CHR ''+'' then map_option int (int_number cs)
             else if c = CHR ''-'' then map_option (\<lambda>n. - int n) (int_number cs)
             else map_option int (int_number (c # cs))))"

definition handle_exit_command :: "world \<Rightarrow> shell \<Rightarrow> string list \<Rightarrow> unit result \<times> shell" where
  "handle_exit_command w s args =
     (if length args > 2 then (Inr (), print_err ''exit: too many arguments'' s)
      else if length args = 2
      then
        (case py_int (w_int_max_str_digits w) (args ! 1) of
           None \<Rightarrow> (Inr (), print_err (''exit: non-integer exit code provided: '' @ args ! 1) s)
         | Some exit_code \<Rightarrow> (Inl (SysExit exit_code), s))
      else (Inl (SysExit 0), s))"

text \<open>
  The status with which the process ends when \<open>sys.exit(code)\<close> is caught by nothing, as
  it is in \<open>run_shell\<close>: the interpreter reads the code as a C \<open>long\<close> of 64 bits, the
  status being \<open>-1\<close> where it does not fit, and the operating system keeps the low eight
  bits.
\<close>

definition exit_status :: "int \<Rightarrow> int" where
  "exit_status code =
     (if - (2 ^ 63) \<le> code \<and> code < 2 ^ 63 then code mod 256 else 255)"

section \<open>The pipeline\<close>

text \<open>The first loop of \<open>execute_pipeline\<close>: \<open>count\<close> pipes are created.\<close>

fun create_pipes ::
  "world \<Rightarrow> nat \<Rightarrow> (nat \<times> nat) list \<Rightarrow> shell \<Rightarrow> (nat \<times> nat) list result \<times> shell" where
  "create_pipes w 0 pipe_fds s = (Inr pipe_fds, s)"
| "create_pipes w (Suc count) pipe_fds s =
     (case os_pipe w s of
        (Inl a, s') \<Rightarrow> (Inl a, s')
      | (Inr p, s') \<Rightarrow> create_pipes w count (pipe_fds @ [p]) s')"

text \<open>\<open>pipe_fds[k]\<close>\<close>

definition pipe_fd :: "(nat \<times> nat) list \<Rightarrow> nat \<Rightarrow> shell \<Rightarrow> (nat \<times> nat) result \<times> shell" where
  "pipe_fd pipe_fds k s =
     (if k < length pipe_fds then (Inr (pipe_fds ! k), s)
      else (Inl (Raise (IndexError ''list index out of range'')), s))"

text \<open>
  The branch \<open>pid == 0\<close> of the second loop: what the child of stage \<open>i\<close> does. It ends in
  \<open>sys.exit(0)\<close> unless an exception or \<open>os.execvp\<close> ends it before.
\<close>

definition child_stage ::
  "world \<Rightarrow> shell \<Rightarrow> (nat \<times> nat) list \<Rightarrow> nat \<Rightarrow> nat \<Rightarrow> string list \<Rightarrow> 'a result \<times> shell" where
  "child_stage w s pipe_fds num_commands i args =
     then_do (if i > 0
              then then_do (pipe_fd pipe_fds (i - 1) s) (\<lambda>p s'. os_dup2 (fst p) 0 s')
              else (Inr (), s)) (\<lambda>u s1.
     then_do (if i < num_commands - 1
              then then_do (pipe_fd pipe_fds i s1) (\<lambda>p s'. os_dup2 (snd p) 1 s')
              else (Inr (), s1)) (\<lambda>u s2.
     then_do (execute_external_command w s2 args False) (\<lambda>r s3.
     (Inl (SysExit 0), s3))))"

text \<open>The branch \<open>pid > 0\<close> after \<open>pids.append(pid)\<close>: the parent closes the ends it handed on.\<close>

definition parent_stage ::
  "shell \<Rightarrow> (nat \<times> nat) list \<Rightarrow> nat \<Rightarrow> nat \<Rightarrow> unit result \<times> shell" where
  "parent_stage s pipe_fds num_commands i =
     then_do (if i > 0
              then then_do (pipe_fd pipe_fds (i - 1) s) (\<lambda>p s'. os_close (fst p) s')
              else (Inr (), s)) (\<lambda>u s1.
     if i < num_commands - 1
     then then_do (pipe_fd pipe_fds i s1) (\<lambda>p s'. os_close (snd p) s')
     else (Inr (), s1))"

text \<open>
  One turn of the second loop, for stage \<open>i\<close> with text \<open>cmd\<close>: \<open>Some pid\<close> when the parent
  goes on to the next stage, \<open>None\<close> when it leaves the loop by \<open>break\<close>.
\<close>

definition fork_stage ::
  "world \<Rightarrow> shell \<Rightarrow> (nat \<times> nat) list \<Rightarrow> nat \<Rightarrow> nat \<Rightarrow> string \<Rightarrow> int option result \<times> shell" where
  "fork_stage w s pipe_fds num_commands i cmd =
     (case shlex_split cmd of
        Inl msg \<Rightarrow> (Inl (Raise (ValueError msg)), s)
      | Inr args \<Rightarrow>
          then_do (os_fork w s) (\<lambda>pid s1.
            if pid = 0 then child_stage w s1 pipe_fds num_commands i args
            else if pid > 0
            then then_do (parent_stage s1 pipe_fds num_commands i) (\<lambda>u s2. (Inr (Some pid), s2))
            else (Inr None, print_err ''mysh: failed to fork process'' s1)))"

fun fork_stages ::
  "world \<Rightarrow> (nat \<times> nat) list \<Rightarrow> nat \<Rightarrow> nat \<Rightarrow> string list \<Rightarrow> int list \<Rightarrow> shell
     \<Rightarrow> int list result \<times> shell" where
  "fork_stages w pipe_fds num_commands i [] pids s = (Inr pids, s)"
| "fork_stages w pipe_fds num_commands i (cmd # rest) pids s =
     (case fork_stage w s pipe_fds num_commands i cmd of
        (Inl a, s') \<Rightarrow> (Inl a, s')
      | (Inr None, s') \<Rightarrow> (Inr pids, s')
      | (Inr (Some pid), s') \<Rightarrow> fork_stages w pipe_fds num_commands (Suc i) rest (pids @ [pid]) s')"

text \<open>The third loop: both ends of every pipe are closed, an \<open>OSError\<close> skipping to the next pipe.\<close>

fun close_pipes :: "(nat \<times> nat) list \<Rightarrow> shell \<Rightarrow> shell" where
  "close_pipes [] s = s"
| "close_pipes (p # rest) s =
     (case os_close (fst p) s of
        (Inl a, s1) \<Rightarrow> close_pipes rest s1
      | (Inr u, s1) \<Rightarrow> close_pipes rest (snd (os_close (snd p) s1)))"

text \<open>The last loop: \<open>os.waitpid(pid, 0)\<close> for every \<open>pid\<close> in \<open>pids\<close>.\<close>

definition wait_all :: "int list \<Rightarrow> shell \<Rightarrow> shell" where
  "wait_all pids s = foldl (\<lambda>st pid. os_waitpid pid st) s pids"

definition execute_pipeline :: "world \<Rightarrow> shell \<Rightarrow> string list \<Rightarrow> unit result \<times> shell" where
  "execute_pipeline w s commands =
     then_do (create_pipes w (length commands - 1) [] s) (\<lambda>pipe_fds s1.
     then_do (fork_stages w pipe_fds (length commands) 0 commands [] s1) (\<lambda>pids s2.
     (Inr (), wait_all pids (close_pipes pipe_fds s2))))"

section \<open>One command line\<close>

text \<open>The dictionary \<open>command_map\<close> of \<open>run_command\<close>.\<close>

definition command_map ::
  "string \<Rightarrow> (world \<Rightarrow> shell \<Rightarrow> string list \<Rightarrow> unit result \<times> shell) option" where
  "command_map name =
     (if name = ''var'' then Some handle_var_command
      else if name = ''pwd'' then Some handle_pwd_command
      else if name = ''cd'' then Some handle_cd_command
      else if name = ''which'' then Some handle_which_command
      else if name = ''exit'' then Some handle_exit_command
      else None)"

text \<open>The part of \<open>run_command\<close> after the two checks of \<open>success\<close>.\<close>

definition dispatch :: "world \<Rightarrow> shell \<Rightarrow> string list \<Rightarrow> unit result \<times> shell" where
  "dispatch w s args =
     (case args of
        [] \<Rightarrow> (Inr (), s)
      | arg0 # others \<Rightarrow>
          (case command_map arg0 of
             Some handler \<Rightarrow> handler w s args
           | None \<Rightarrow> then_do (execute_external_command w s args False) (\<lambda>r s'. (Inr (), s'))))"

text \<open>
  \<open>run_command\<close>. The module \<open>parsing\<close> that defines \<open>split_by_pipe_op\<close> is not among the
  sources, so the function is the parameter \<open>seg\<close>.
\<close>

definition run_command ::
  "(string \<Rightarrow> string list) \<Rightarrow> world \<Rightarrow> shell \<Rightarrow> string \<Rightarrow> unit result \<times> shell" where
  "run_command seg w s cmd =
     (if CHR ''|'' \<in> set cmd
      then
        (if list_ex (\<lambda>command. strip command = []) (seg cmd)
         then (Inr (), print_err ''mysh: syntax error: expected command after pipe'' s)
         else execute_pipeline w s (seg cmd))
      else
        (case replace_variables s cmd of
           ((cmd1, success1), s1) \<Rightarrow>
             if \<not> success1 then (Inr (), s1)
             else
               (case custom_split_command s1 cmd1 of
                  ((args, success2), s2) \<Rightarrow>
                    if \<not> success2 then (Inr (), s2) else dispatch w s2 args)))"

text \<open>
  The loop of \<open>run_shell\<close> over the lines that \<open>input\<close> returns, the end of the list being
  the end of the input (\<open>EOFError\<close>). The prompt it writes is left out, and so is
  \<open>KeyboardInterrupt\<close>. The loop catches no other exception.
\<close>

fun shell_loop ::
  "(string \<Rightarrow> string list) \<Rightarrow> world \<Rightarrow> shell \<Rightarrow> string list \<Rightarrow> unit result \<times> shell" where
  "shell_loop seg w s [] = (Inr (), print_out [] s)"
| "shell_loop seg w s (cmd # rest) =
     (if strip cmd = [] then shell_loop seg w s rest
      else
        (case run_command seg w s cmd of
           (Inl a, s') \<Rightarrow> (Inl a, s')
         | (Inr u, s') \<Rightarrow> shell_loop seg w s' rest))"

text \<open>
  Modelled from the spec: \<open>split_by_pipe_op\<close> of the module \<open>parsing\<close>, which is not among
  the sources. The spec has it split the line "at top-level pipe characters (characters
  inside quotes must not be treated as separators)". A quote character opens a quoted
  part that the next occurrence of the same character closes.
\<close>

fun split_stages :: "char option \<Rightarrow> string \<Rightarrow> string \<Rightarrow> string list" where
  "split_stages q stage [] = [stage]"
| "split_stages None stage (c # cs) =
     (if c = CHR ''|'' then stage # split_stages None [] cs
      else if c = SQ \<or> c = DQ then split_stages (Some c) (stage @ [c]) cs
      else split_stages None (stage @ [c]) cs)"
| "split_stages (Some q) stage (c # cs) =
     (if c = q then split_stages None (stage @ [c]) cs
      else split_stages (Some q) (stage @ [c]) cs)"

definition split_by_pipe_op :: "string \<Rightarrow> string list" where
  "split_by_pipe_op cmd_str = split_stages None [] cmd_str"

section \<open>Observations, the pattern of the specification and sample states\<close>

text \<open>
  What a list of calls says about children: the identifiers of the children forked (the
  positive results of \<open>os.fork\<close>) and the identifiers waited for, each in order.
\<close>

fun waited_pids :: "syscall list \<Rightarrow> int list" where
  "waited_pids [] = []"
| "waited_pids (SysWaitpid pid # cs) = pid # waited_pids cs"
| "waited_pids (c # cs) = waited_pids cs"

fun forked_pids :: "syscall list \<Rightarrow> int list" where
  "forked_pids [] = []"
| "forked_pids (SysFork pid # cs) = (if pid > 0 then pid # forked_pids cs else forked_pids cs)"
| "forked_pids (c # cs) = forked_pids cs"

text \<open>
  The names the specification admits, \<open>^[A-Za-z_][A-Za-z0-9_]*$\<close>: a letter or an
  underscore, then letters, digits and underscores only.
\<close>

definition spec_name :: "string \<Rightarrow> bool" where
  "spec_name name =
     (case name of
        [] \<Rightarrow> False
      | c # cs \<Rightarrow>
          (is_ascii_letter c \<or> c = CHR ''_'')
          \<and> list_all (\<lambda>d. is_ascii_letter d \<or> is_ascii_digit d \<or> d = CHR ''_'') cs)"

text \<open>
  A process with an empty environment whose descriptors 0, 1 and 2 are the terminal, and an
  operating system in which every call succeeds, every path names an executable file and
  the \<open>k\<close>-th fork returns the child identifier \<open>100 + k\<close>; the interpreter has its
  default limit of 4300 digits.
\<close>

definition sample_shell :: shell where
  "sample_shell =
     \<lparr>environ = Map.empty, logical_pwd = ''/home/user'', out_lines = [], err_lines = [],
      os_cwd = ''/home/user'', fds = [(0, Tty), (1, Tty), (2, Tty)], nforks = 0, npipes = 0,
      calls = []\<rparr>"

definition sample_world :: world where
  "sample_world =
     \<lparr>w_fork = (\<lambda>k. ForkReturns (100 + int k)), w_pipe_fails = (\<lambda>k. False),
      w_isfile = (\<lambda>cwd path. True), w_access_x = (\<lambda>cwd path. True),
      w_chdir = (\<lambda>cwd path. None), w_realpath = (\<lambda>path. path), w_pw_dir = (\<lambda>name. None),
      w_own_pw_dir = None, w_setpgid = None, w_execvp = (\<lambda>args. None),
      w_child_output = (\<lambda>pid. Inr []), w_int_max_str_digits = 4300\<rparr>"

section \<open>Variable names\<close>

lemma re_word_ascii:
  "code_point c < 128 \<Longrightarrow> re_word c = (is_ascii_letter c \<or> is_ascii_digit c \<or> c = CHR ''_'')"
  by (auto simp: re_word_def)

text \<open>
  On names of ASCII characters without a newline the check of the source and the pattern of
  the specification agree, and every name the specification admits passes the check.
\<close>

lemma valid_name_ascii:
  assumes "list_all (\<lambda>c. code_point c < 128 \<and> c \<noteq> NL) name"
  shows "is_valid_variable_name name = spec_name name"
proof (cases name)
  case Nil
  then show ?thesis
    by (simp add: is_valid_variable_name_def re_match_name_def spec_name_def)
next
  case (Cons c cs)
  from assms Cons have ascii: "\<And>d. d \<in> set cs \<Longrightarrow> code_point d < 128" and nl: "NL \<notin> set cs"
    by (auto simp: list_all_iff)
  have "set (dropWhile re_word cs) \<subseteq> set cs"
    by (rule set_dropWhileD [THEN subsetI])
  with nl have no_nl: "dropWhile re_word cs \<noteq> [NL]"
    by (metis list.set_intros(1) subsetD)
  have "(dropWhile re_word cs = [])
      = list_all (\<lambda>d. is_ascii_letter d \<or> is_ascii_digit d \<or> d = CHR ''_'') cs"
    using ascii by (auto simp: dropWhile_eq_Nil_conv list_all_iff re_word_ascii)
  with no_nl Cons show ?thesis
    by (simp add: is_valid_variable_name_def re_match_name_def spec_name_def)
qed

lemma spec_name_valid: "spec_name name \<Longrightarrow> is_valid_variable_name name"
  by (auto simp: spec_name_def is_valid_variable_name_def re_match_name_def re_word_def
      dropWhile_eq_Nil_conv list_all_iff split: list.splits)

lemma valid_name_shape:
  assumes "is_valid_variable_name name"
  shows "name \<noteq> [] \<and> CHR ''}'' \<notin> set name"
proof (cases name)
  case Nil
  with assms show ?thesis
    by (simp add: is_valid_variable_name_def re_match_name_def)
next
  case (Cons c cs)
  with assms have c: "is_ascii_letter c \<or> c = CHR ''_''"
    and r: "dropWhile re_word cs = [] \<or> dropWhile re_word cs = [NL]"
    by (auto simp: is_valid_variable_name_def re_match_name_def)
  have nw: "\<not> re_word (CHR ''}'')" "\<not> is_ascii_letter (CHR ''}'')"
    by (simp_all add: re_word_def is_ascii_letter_def is_ascii_digit_def code_point_def)
  have "set cs = set (takeWhile re_word cs) \<union> set (dropWhile re_word cs)"
    by (metis set_append takeWhile_dropWhile_id)
  with r nw have "CHR ''}'' \<notin> set cs"
    by (auto dest: set_takeWhileD)
  with c nw Cons show ?thesis
    by auto
qed

section \<open>Interpolation\<close>

text \<open>
  One match that is not escaped and whose name the check refuses makes the loop return the
  empty string and \<open>False\<close>, whatever the other matches are; one line is printed.
\<close>

lemma replace_matches_invalid:
  assumes "(start, name, stop) \<in> set ms"
    and "\<not> (0 < start \<and> str_index cmd (start - 1) = Some BS)"
    and "\<not> is_valid_variable_name name"
  shows "\<exists>msg. replace_matches s cmd ms last_end result = (([], False), print_err msg s)"
  using assms
proof (induction ms arbitrary: last_end result)
  case Nil
  then show ?case by simp
next
  case (Cons m ms)
  obtain a n b where m: "m = (a, n, b)"
    by (cases m) auto
  show ?case
  proof (cases "(0 < a \<and> str_index cmd (a - 1) = Some BS) \<or> is_valid_variable_name n")
    case True
    with Cons.prems m have "(start, name, stop) \<in> set ms"
      by auto
    from Cons.IH [OF this Cons.prems(2,3)] True m show ?thesis
      by (auto simp: replace_def)
  next
    case False
    with m show ?thesis
      by (auto simp: replace_def)
  qed
qed

lemma finditer_single:
  assumes "name \<noteq> []" "CHR ''}'' \<notin> set name"
  shows "finditer (''${'' @ name @ ''}'') = [(0, name, length name + 3)]"
proof -
  have tw: "takeWhile (\<lambda>c. c \<noteq> CHR ''}'') (name @ ''}'') = name"
    using assms(2) by (induction name) auto
  with assms(1) have "match_at (''${'' @ name @ ''}'') = Some name"
    by (simp add: match_at_def)
  then show ?thesis
    by (simp add: finditer_def)
qed

lemma replace_variables_single:
  assumes "is_valid_variable_name name"
  shows "replace_variables s (''${'' @ name @ ''}'') = ((getenv s name [], True), s)"
proof -
  from valid_name_shape [OF assms]
  have f: "finditer (''${'' @ name @ ''}'') = [(0, name, length name + 3)]"
    by (intro finditer_single) auto
  show ?thesis
    unfolding replace_variables_def f using assms
    by (simp add: replace_def slice_def getenv_def str_index_def split: option.splits)
qed

text \<open>
  Claim C7, as the source has it. The source checks a name with \<open>^[a-zA-Z_]\w*$\<close>, which
  admits more than the pattern \<open>^[A-Za-z_][A-Za-z0-9_]*$\<close> of the claim (\<open>\w\<close> matches
  letters and digits outside ASCII too); the two agree on names of ASCII characters without
  a newline. For every text in which the scan finds an
  occurrence \<open>${NAME}\<close> that no backslash precedes and whose \<open>NAME\<close>, made of such
  characters, does not match the pattern of the claim, \<open>replace_variables\<close> returns the
  empty string and \<open>False\<close> and prints one line; and when the text is a command line
  without \<open>|\<close>, \<open>run_command\<close> returns with nothing but that line changed: no word is split
  off, nothing is run, no variable is set.
\<close>

theorem invalid_name_abandons_cycle:
  assumes "(start, name, stop) \<in> set (finditer cmd)"
    and "\<not> (0 < start \<and> str_index cmd (start - 1) = Some BS)"
    and "list_all (\<lambda>c. code_point c < 128 \<and> c \<noteq> NL) name"
    and "\<not> spec_name name"
  shows "(\<exists>msg. replace_variables s cmd = (([], False), print_err msg s))
    \<and> (CHR ''|'' \<notin> set cmd \<longrightarrow> (\<exists>msg. run_command seg w s cmd = (Inr (), print_err msg s)))"
proof -
  from assms(3,4) have "\<not> is_valid_variable_name name"
    by (simp add: valid_name_ascii)
  from replace_matches_invalid [OF assms(1,2) this]
  obtain msg where "replace_variables s cmd = (([], False), print_err msg s)"
    unfolding replace_variables_def by blast
  then show ?thesis
    by (auto simp: run_command_def)
qed

theorem invalid_name_abandons_cycle_witness:
  "(5, ''1BAD'', 12) \<in> set (finditer ''echo ${1BAD}'')
   \<and> \<not> spec_name ''1BAD''
   \<and> (\<exists>msg. replace_variables sample_shell ''echo ${1BAD}''
              = (([], False), print_err msg sample_shell))
   \<and> (\<exists>msg. run_command split_by_pipe_op sample_world sample_shell ''echo ${1BAD}''
              = (Inr (), print_err msg sample_shell))"
proof -
  have h1: "(5, ''1BAD'', 12) \<in> set (finditer ''echo ${1BAD}'')"
    by (simp add: finditer_def match_at_def)
  have h2: "\<not> (0 < (5::nat) \<and> str_index ''echo ${1BAD}'' (5 - 1) = Some BS)"
    by (simp add: str_index_def)
  have h3: "list_all (\<lambda>c. code_point c < 128 \<and> c \<noteq> NL) ''1BAD''"
    by (simp add: code_point_def)
  have h4: "\<not> spec_name ''1BAD''"
    by (simp add: spec_name_def is_ascii_letter_def code_point_def)
  have h5: "CHR ''|'' \<notin> set ''echo ${1BAD}''"
    by simp
  from invalid_name_abandons_cycle [OF h1 h2 h3 h4, of sample_shell split_by_pipe_op sample_world]
    h1 h4 h5
  show ?thesis
    by blast
qed

text \<open>
  The claim as it is stated fails: the name made of \<open>a\<close> and the letter e with an acute
  accent (code point 233) does not match the pattern of the claim, yet interpolation of
  \<open>${NAME}\<close> with that name succeeds, because \<open>\w\<close> in the pattern of the source admits
  the accented letter. The name is unset here, so the result is the empty string and
  \<open>True\<close>.
\<close>

theorem non_ascii_name_is_accepted:
  "(0, [CHR ''a'', CHR 0xE9], 5) \<in> set (finditer (''${a'' @ [CHR 0xE9] @ ''}''))
   \<and> \<not> spec_name [CHR ''a'', CHR 0xE9]
   \<and> replace_variables sample_shell (''${a'' @ [CHR 0xE9] @ ''}'') = (([], True), sample_shell)"
  by (simp add: finditer_def match_at_def spec_name_def replace_variables_def replace_def
      is_valid_variable_name_def re_match_name_def re_word_def is_ascii_letter_def
      is_ascii_digit_def code_point_def sample_shell_def slice_def str_index_def)

text \<open>
  Claim C8, as the source has it: for every name that passes the check of the source (so for
  every name the specification admits), interpolating \<open>${NAME}\<close> yields exactly the value
  the environment has for the name, whatever that value contains (a \<open>${...}\<close> inside it is
  not expanded again), and the empty string when the name is unset.
\<close>

theorem interpolation_roundtrip:
  assumes "is_valid_variable_name name"
  shows "(environ s name = Some v
            \<longrightarrow> replace_variables s (''${'' @ name @ ''}'') = ((v, True), s))
    \<and> (environ s name = None
            \<longrightarrow> replace_variables s (''${'' @ name @ ''}'') = (([], True), s))"
  using replace_variables_single [OF assms, of s] by (simp add: getenv_def)

theorem interpolation_roundtrip_witness:
  "is_valid_variable_name ''A''
   \<and> replace_variables (sample_shell\<lparr>environ := [''A'' \<mapsto> ''x${B}y'', ''B'' \<mapsto> ''z'']\<rparr>) ''${A}''
       = ((''x${B}y'', True), sample_shell\<lparr>environ := [''A'' \<mapsto> ''x${B}y'', ''B'' \<mapsto> ''z'']\<rparr>)
   \<and> is_valid_variable_name ''C''
   \<and> replace_variables (sample_shell\<lparr>environ := [''A'' \<mapsto> ''x${B}y'', ''B'' \<mapsto> ''z'']\<rparr>) ''${C}''
       = (([], True), sample_shell\<lparr>environ := [''A'' \<mapsto> ''x${B}y'', ''B'' \<mapsto> ''z'']\<rparr>)"
proof -
  have a: "is_valid_variable_name ''A''" and c: "is_valid_variable_name ''C''"
    by (simp_all add: is_valid_variable_name_def re_match_name_def is_ascii_letter_def
        code_point_def)
  from interpolation_roundtrip [OF a,
      of "sample_shell\<lparr>environ := [''A'' \<mapsto> ''x${B}y'', ''B'' \<mapsto> ''z'']\<rparr>" "''x${B}y''"]
    interpolation_roundtrip [OF c,
      of "sample_shell\<lparr>environ := [''A'' \<mapsto> ''x${B}y'', ''B'' \<mapsto> ''z'']\<rparr>" "[]"]
    a c
  show ?thesis
    by simp
qed

text \<open>
  The claim as it is stated fails for an entry whose name the check refuses: with
  \<open>1X=v\<close> in the environment, interpolating \<open>${1X}\<close> fails instead of yielding \<open>v\<close>.
\<close>

theorem invalid_entry_is_not_interpolated:
  "environ (sample_shell\<lparr>environ := [''1X'' \<mapsto> ''v'']\<rparr>) ''1X'' = Some ''v''
   \<and> fst (replace_variables (sample_shell\<lparr>environ := [''1X'' \<mapsto> ''v'']\<rparr>) ''${1X}'') = ([], False)"
  by (simp add: finditer_def match_at_def replace_variables_def replace_def
      is_valid_variable_name_def re_match_name_def is_ascii_letter_def is_ascii_digit_def
      code_point_def sample_shell_def slice_def str_index_def)

section \<open>Replacement in strings\<close>

text \<open>
  Facts about \<open>str.replace\<close> with a replacement of one character \<open>q\<close>: where the text
  sought is absent nothing changes; a text without \<open>q\<close> that the result starts with or
  contains was already there; the text sought does not occur in the result when \<open>q\<close> is
  not one of its characters; the result has a \<open>q\<close> when the text sought occurred; and
  characters outside the text sought stay.
\<close>

lemma str_in_Nil [simp]: "str_in [] s"
  by (induction s) (auto simp: startswith_def)

lemma str_in_drop: "str_in a (drop n s) \<Longrightarrow> str_in a s"
proof (induction s arbitrary: n)
  case Nil
  then show ?case by simp
next
  case (Cons c cs)
  then show ?case
    by (cases n) auto
qed

lemma replace_from_absent: "\<not> str_in old s \<Longrightarrow> replace_from old new s = s"
  by (induction old new s rule: replace_from.induct) auto

lemma replace_from_startswith:
  "q \<notin> set a \<Longrightarrow> startswith (replace_from old [q] s) a \<Longrightarrow> startswith s a"
proof (induction old "[q]" s arbitrary: a rule: replace_from.induct)
  case (1 old)
  then show ?case by simp
next
  case (2 old c cs)
  show ?case
  proof (cases a)
    case Nil
    then show ?thesis by (simp add: startswith_def)
  next
    case (Cons x a')
    show ?thesis
    proof (cases "startswith (c # cs) old")
      case True
      with "2.prems" Cons show ?thesis
        by (auto simp: startswith_def)
    next
      case False
      with "2.prems" Cons have "x = c" "startswith (replace_from old [q] cs) a'" "q \<notin> set a'"
        by (auto simp: startswith_def)
      with "2.hyps"(2) [OF False, of a'] Cons show ?thesis
        by (auto simp: startswith_def)
    qed
  qed
qed

lemma replace_from_no_new:
  "q \<notin> set a \<Longrightarrow> \<not> str_in a s \<Longrightarrow> \<not> str_in a (replace_from old [q] s)"
proof (induction old "[q]" s rule: replace_from.induct)
  case (1 old)
  then show ?case by simp
next
  case (2 old c cs)
  from "2.prems" have ne: "a \<noteq> []"
    by auto
  show ?case
  proof (cases "startswith (c # cs) old")
    case True
    from "2.prems" have "\<not> str_in a (drop (length old - 1) cs)"
      using str_in_drop [of a "length old - 1" cs] by auto
    with "2.hyps"(1) [OF True "2.prems"(1)] have "\<not> str_in a (replace_from old [q] (drop (length old - 1) cs))"
      by simp
    moreover have "\<not> startswith (q # replace_from old [q] (drop (length old - 1) cs)) a"
      using ne "2.prems"(1) by (cases a) (auto simp: startswith_def)
    ultimately show ?thesis
      using True by simp
  next
    case False
    from "2.prems" have "\<not> str_in a cs" "\<not> startswith (c # cs) a"
      by auto
    with "2.hyps"(2) [OF False "2.prems"(1)] replace_from_startswith [OF "2.prems"(1), of old "c # cs"] False
    show ?thesis
      by auto
  qed
qed

lemma replace_from_none_left:
  "old \<noteq> [] \<Longrightarrow> q \<notin> set old \<Longrightarrow> \<not> str_in old (replace_from old [q] s)"
proof (induction old "[q]" s rule: replace_from.induct)
  case (1 old)
  then show ?case by simp
next
  case (2 old c cs)
  show ?case
  proof (cases "startswith (c # cs) old")
    case True
    have "\<not> startswith (q # replace_from old [q] (drop (length old - 1) cs)) old"
      using "2.prems" by (cases old) (auto simp: startswith_def)
    with "2.hyps"(1) [OF True "2.prems"] True show ?thesis
      by simp
  next
    case False
    with "2.hyps"(2) [OF False "2.prems"] replace_from_startswith [OF "2.prems"(2), of old "c # cs"]
    show ?thesis
      by auto
  qed
qed

lemma replace_from_inserts:
  "old \<noteq> [] \<Longrightarrow> str_in old s \<Longrightarrow> q \<in> set (replace_from old [q] s)"
  by (induction old "[q]" s rule: replace_from.induct) auto

lemma replace_from_keeps:
  "old \<noteq> [] \<Longrightarrow> x \<notin> set old \<Longrightarrow> x \<in> set s \<Longrightarrow> x \<in> set (replace_from old new s)"
proof (induction old new s rule: replace_from.induct)
  case (1 old new)
  then show ?case by simp
next
  case (2 old new c cs)
  show ?case
  proof (cases "startswith (c # cs) old")
    case True
    then have "c # cs = old @ drop (length old) (c # cs)"
      by (metis append_take_drop_id startswith_def)
    with "2.prems" have "x \<in> set (drop (length old) (c # cs))"
      by (metis Un_iff set_append)
    moreover from "2.prems"(1) have "drop (length old) (c # cs) = drop (length old - 1) cs"
      by (cases old) auto
    ultimately show ?thesis
      using "2.IH"(1) [OF True "2.prems"(1,2)] True by simp
  next
    case False
    with "2.IH"(2) [OF False "2.prems"(1,2)] "2.prems"(3) show ?thesis
      by auto
  qed
qed

section \<open>The tokenizer\<close>

lemma read_token_none:
  "read_token cm st token quoted es inp = Inr (None, st', rest) \<Longrightarrow> st' = Eof"
  by (induction cm st token quoted es inp rule: read_token.induct)
    (auto simp: token_result_def split: if_splits)

lemma lexer_list_final: "lexer_list cm st inp = Inr (ws, st') \<Longrightarrow> st' = Eof"
proof (induction cm st inp arbitrary: ws st' rule: lexer_list.induct)
  case (1 cm st inp)
  from "1.prems" show ?case
    by (subst (asm) lexer_list.simps)
      (auto split: sum.splits option.splits prod.splits dest: read_token_none "1.IH")
qed

lemma placeholder_chars: "SINGLE_QUOTE \<noteq> []" "DOUBLE_QUOTE \<noteq> []" "SQ \<notin> set SINGLE_QUOTE" "DQ \<notin> set SINGLE_QUOTE"
  "DQ \<notin> set DOUBLE_QUOTE" "SQ \<notin> set DOUBLE_QUOTE"
  by (simp_all add: SINGLE_QUOTE_def DOUBLE_QUOTE_def)

lemma postprocess_no_placeholder:
  "\<not> str_in SINGLE_QUOTE (postprocess_arg a) \<and> \<not> str_in DOUBLE_QUOTE (postprocess_arg a)"
  using replace_from_none_left [OF placeholder_chars(1) placeholder_chars(3), of a]
    replace_from_no_new [OF placeholder_chars(4), of "replace_from SINGLE_QUOTE [SQ] a" DOUBLE_QUOTE]
    replace_from_none_left [OF placeholder_chars(2) placeholder_chars(5), of "replace_from SINGLE_QUOTE [SQ] a"]
  by (simp add: postprocess_arg_def str_replace_def placeholder_chars)

lemma postprocess_single:
  "str_in SINGLE_QUOTE a \<Longrightarrow> SQ \<in> set (postprocess_arg a)"
  using replace_from_inserts [OF placeholder_chars(1), of a SQ]
    replace_from_keeps [OF placeholder_chars(2) placeholder_chars(6), of "replace_from SINGLE_QUOTE [SQ] a" "[DQ]"]
  by (simp add: postprocess_arg_def str_replace_def placeholder_chars)

lemma preprocess_identity:
  "\<not> str_in [BS, SQ] cmd \<Longrightarrow> \<not> str_in [BS, DQ] cmd \<Longrightarrow> preprocess_command cmd = cmd"
  by (simp add: preprocess_command_def str_replace_def replace_from_absent)

lemma postprocess_double_left:
  "str_in DOUBLE_QUOTE (str_replace a SINGLE_QUOTE [SQ]) \<Longrightarrow> DQ \<in> set (postprocess_arg a)"
  using replace_from_inserts [OF placeholder_chars(2), of "replace_from SINGLE_QUOTE [SQ] a" DQ]
  by (simp add: postprocess_arg_def str_replace_def placeholder_chars)

lemma first_replacement_absent:
  "\<not> str_in SINGLE_QUOTE a \<Longrightarrow> str_replace a SINGLE_QUOTE [SQ] = a"
  by (simp add: str_replace_def placeholder_chars replace_from_absent)

lemma postprocess_changes:
  "str_in SINGLE_QUOTE a \<or> str_in DOUBLE_QUOTE a \<Longrightarrow> postprocess_arg a \<noteq> a"
  using postprocess_no_placeholder [of a] by auto

text \<open>
  Claim C10, as the source has it. For every text without a backslash-escaped quote (so
  that \<open>preprocess_command\<close> changes nothing) that the lexer splits into the words \<open>ws\<close>,
  \<open>custom_split_command\<close> succeeds and returns each word with the occurrences of
  \<open>__SINGLE_QUOTE__\<close> replaced by \<open>'\<close>, from the left, and then the occurrences of
  \<open>__DOUBLE_QUOTE__\<close> that are left replaced by \<open>"\<close>. None of the words returned
  contains either text, so a word that contained one of them is not preserved; a word
  that contained \<open>__SINGLE_QUOTE__\<close> comes back with a \<open>'\<close>, and a word in which
  \<open>__DOUBLE_QUOTE__\<close> still occurs after the first replacement, which leaves a word
  without \<open>__SINGLE_QUOTE__\<close> as it is, comes back with a \<open>"\<close>.
\<close>

theorem placeholder_text_is_rewritten:
  assumes "\<not> str_in [BS, SQ] cmd" and "\<not> str_in [BS, DQ] cmd"
    and "lexer_list ''#'' Blank cmd = Inr (ws, st)"
  shows "custom_split_command s cmd
           = ((map (\<lambda>a. str_replace (str_replace a SINGLE_QUOTE [SQ]) DOUBLE_QUOTE [DQ]) ws, True), s)
    \<and> (\<forall>a \<in> set (fst (fst (custom_split_command s cmd))).
          \<not> str_in SINGLE_QUOTE a \<and> \<not> str_in DOUBLE_QUOTE a)
    \<and> (\<forall>a \<in> set ws.
          (str_in SINGLE_QUOTE a
             \<longrightarrow> SQ \<in> set (str_replace (str_replace a SINGLE_QUOTE [SQ]) DOUBLE_QUOTE [DQ]))
          \<and> (str_in DOUBLE_QUOTE (str_replace a SINGLE_QUOTE [SQ])
             \<longrightarrow> DQ \<in> set (str_replace (str_replace a SINGLE_QUOTE [SQ]) DOUBLE_QUOTE [DQ]))
          \<and> (str_in SINGLE_QUOTE a \<or> str_in DOUBLE_QUOTE a
             \<longrightarrow> str_replace (str_replace a SINGLE_QUOTE [SQ]) DOUBLE_QUOTE [DQ] \<noteq> a)
          \<and> (\<not> str_in SINGLE_QUOTE a \<longrightarrow> str_replace a SINGLE_QUOTE [SQ] = a))"
proof -
  from lexer_list_final [OF assms(3)] have st: "st = Eof" .
  from assms st preprocess_identity [OF assms(1,2)]
  have eq: "custom_split_command s cmd = ((map postprocess_arg ws, True), s)"
    by (simp add: custom_split_command_def postprocess_args_def postprocess_arg_def)
  have no: "\<forall>a \<in> set (map postprocess_arg ws). \<not> str_in SINGLE_QUOTE a \<and> \<not> str_in DOUBLE_QUOTE a"
    using postprocess_no_placeholder by auto
  have each: "\<forall>a \<in> set ws.
          (str_in SINGLE_QUOTE a \<longrightarrow> SQ \<in> set (postprocess_arg a))
          \<and> (str_in DOUBLE_QUOTE (str_replace a SINGLE_QUOTE [SQ]) \<longrightarrow> DQ \<in> set (postprocess_arg a))
          \<and> (str_in SINGLE_QUOTE a \<or> str_in DOUBLE_QUOTE a \<longrightarrow> postprocess_arg a \<noteq> a)
          \<and> (\<not> str_in SINGLE_QUOTE a \<longrightarrow> str_replace a SINGLE_QUOTE [SQ] = a)"
    using postprocess_single postprocess_double_left postprocess_changes first_replacement_absent
    by blast
  from no each show ?thesis
    unfolding eq by (simp add: postprocess_arg_def)
qed

theorem placeholder_text_is_rewritten_witness:
  "\<not> str_in [BS, SQ] ''echo __SINGLE_QUOTE__ a__DOUBLE_QUOTE__b''
   \<and> \<not> str_in [BS, DQ] ''echo __SINGLE_QUOTE__ a__DOUBLE_QUOTE__b''
   \<and> lexer_list ''#'' Blank ''echo __SINGLE_QUOTE__ a__DOUBLE_QUOTE__b''
       = Inr ([''echo'', ''__SINGLE_QUOTE__'', ''a__DOUBLE_QUOTE__b''], Eof)
   \<and> str_in SINGLE_QUOTE ''__SINGLE_QUOTE__''
   \<and> str_in DOUBLE_QUOTE (str_replace ''a__DOUBLE_QUOTE__b'' SINGLE_QUOTE [SQ])
   \<and> custom_split_command sample_shell ''echo __SINGLE_QUOTE__ a__DOUBLE_QUOTE__b''
       = (([''echo'', [SQ], [CHR ''a'', DQ, CHR ''b'']], True), sample_shell)
   \<and> SQ \<in> set (str_replace (str_replace ''__SINGLE_QUOTE__'' SINGLE_QUOTE [SQ]) DOUBLE_QUOTE [DQ])
   \<and> DQ \<in> set (str_replace (str_replace ''a__DOUBLE_QUOTE__b'' SINGLE_QUOTE [SQ]) DOUBLE_QUOTE [DQ])
   \<and> str_replace (str_replace ''a__DOUBLE_QUOTE__b'' SINGLE_QUOTE [SQ]) DOUBLE_QUOTE [DQ]
       \<noteq> ''a__DOUBLE_QUOTE__b''"
proof -
  have h1: "\<not> str_in [BS, SQ] ''echo __SINGLE_QUOTE__ a__DOUBLE_QUOTE__b''"
    by code_simp
  have h2: "\<not> str_in [BS, DQ] ''echo __SINGLE_QUOTE__ a__DOUBLE_QUOTE__b''"
    by code_simp
  have h3: "lexer_list ''#'' Blank ''echo __SINGLE_QUOTE__ a__DOUBLE_QUOTE__b''
              = Inr ([''echo'', ''__SINGLE_QUOTE__'', ''a__DOUBLE_QUOTE__b''], Eof)"
    by code_simp
  have h4: "str_in SINGLE_QUOTE ''__SINGLE_QUOTE__''"
    by code_simp
  have h5: "str_in DOUBLE_QUOTE (str_replace ''a__DOUBLE_QUOTE__b'' SINGLE_QUOTE [SQ])"
    by code_simp
  have r: "map (\<lambda>a. str_replace (str_replace a SINGLE_QUOTE [SQ]) DOUBLE_QUOTE [DQ])
             [''echo'', ''__SINGLE_QUOTE__'', ''a__DOUBLE_QUOTE__b'']
           = [''echo'', [SQ], [CHR ''a'', DQ, CHR ''b'']]"
    by code_simp
  have m: "''__SINGLE_QUOTE__'' \<in> set [''echo'', ''__SINGLE_QUOTE__'', ''a__DOUBLE_QUOTE__b'']"
    "''a__DOUBLE_QUOTE__b'' \<in> set [''echo'', ''__SINGLE_QUOTE__'', ''a__DOUBLE_QUOTE__b'']"
    by simp_all
  note t = placeholder_text_is_rewritten [OF h1 h2 h3, of sample_shell]
  from t have e: "custom_split_command sample_shell ''echo __SINGLE_QUOTE__ a__DOUBLE_QUOTE__b''
       = (([''echo'', [SQ], [CHR ''a'', DQ, CHR ''b'']], True), sample_shell)"
    unfolding r by (rule conjunct1)
  note each = t [THEN conjunct2, THEN conjunct2]
  have c1: "SQ \<in> set (str_replace (str_replace ''__SINGLE_QUOTE__'' SINGLE_QUOTE [SQ]) DOUBLE_QUOTE [DQ])"
    by (rule mp [OF each [THEN bspec, OF m(1), THEN conjunct1] h4])
  have c2: "DQ \<in> set (str_replace (str_replace ''a__DOUBLE_QUOTE__b'' SINGLE_QUOTE [SQ]) DOUBLE_QUOTE [DQ])"
    by (rule mp [OF each [THEN bspec, OF m(2), THEN conjunct2, THEN conjunct1] h5])
  have h6: "str_in DOUBLE_QUOTE ''a__DOUBLE_QUOTE__b''"
    by code_simp
  have c3: "str_replace (str_replace ''a__DOUBLE_QUOTE__b'' SINGLE_QUOTE [SQ]) DOUBLE_QUOTE [DQ]
       \<noteq> ''a__DOUBLE_QUOTE__b''"
    by (rule mp [OF each [THEN bspec, OF m(2), THEN conjunct2, THEN conjunct2, THEN conjunct1]
          disjI2 [OF h6]])
  show ?thesis
    by (intro conjI h1 h2 h3 h4 h5 e c1 c2 c3)
qed

text \<open>
  The claim as it is stated fails where the two texts share their underscores. The line
  \<open>echo __DOUBLE_QUOTE__SINGLE_QUOTE__\<close> has no pipe and no escaped quote and contains
  \<open>__DOUBLE_QUOTE__\<close>; the replacement of \<open>__SINGLE_QUOTE__\<close> comes first and takes the
  underscores that end it, so the word comes back as \<open>__DOUBLE_QUOTE'\<close>, without a
  \<open>"\<close>. In the same way \<open>__SINGLE_QUOTE__DOUBLE_QUOTE__\<close> comes back as
  \<open>'DOUBLE_QUOTE__\<close>.
\<close>

theorem overlapped_placeholder_is_not_rewritten:
  "str_in DOUBLE_QUOTE ''echo __DOUBLE_QUOTE__SINGLE_QUOTE__''
   \<and> CHR ''|'' \<notin> set ''echo __DOUBLE_QUOTE__SINGLE_QUOTE__''
   \<and> \<not> str_in [BS, SQ] ''echo __DOUBLE_QUOTE__SINGLE_QUOTE__''
   \<and> \<not> str_in [BS, DQ] ''echo __DOUBLE_QUOTE__SINGLE_QUOTE__''
   \<and> fst (custom_split_command sample_shell ''echo __DOUBLE_QUOTE__SINGLE_QUOTE__'')
       = ([''echo'', ''__DOUBLE_QUOTE'' @ [SQ]], True)
   \<and> DQ \<notin> set (''__DOUBLE_QUOTE'' @ [SQ])
   \<and> fst (custom_split_command sample_shell ''echo __SINGLE_QUOTE__DOUBLE_QUOTE__'')
       = ([''echo'', [SQ] @ ''DOUBLE_QUOTE__''], True)"
proof -
  have a: "str_in DOUBLE_QUOTE ''echo __DOUBLE_QUOTE__SINGLE_QUOTE__''"
    by code_simp
  have b: "CHR ''|'' \<notin> set ''echo __DOUBLE_QUOTE__SINGLE_QUOTE__''"
    by simp
  have c: "\<not> str_in [BS, SQ] ''echo __DOUBLE_QUOTE__SINGLE_QUOTE__''"
    by code_simp
  have d: "\<not> str_in [BS, DQ] ''echo __DOUBLE_QUOTE__SINGLE_QUOTE__''"
    by code_simp
  have e: "fst (custom_split_command sample_shell ''echo __DOUBLE_QUOTE__SINGLE_QUOTE__'')
       = ([''echo'', ''__DOUBLE_QUOTE'' @ [SQ]], True)"
    by code_simp
  have f: "DQ \<notin> set (''__DOUBLE_QUOTE'' @ [SQ])"
    by simp
  have g: "fst (custom_split_command sample_shell ''echo __SINGLE_QUOTE__DOUBLE_QUOTE__'')
       = ([''echo'', [SQ] @ ''DOUBLE_QUOTE__''], True)"
    by code_simp
  show ?thesis
    by (intro conjI a b c d e f g)
qed

section \<open>Rejected and built-in command lines\<close>

lemma strip_blank:
  assumes "list_all isspace stage"
  shows "strip stage = []"
proof -
  from assms have "dropWhile isspace stage = []"
    by (induction stage) auto
  then show ?thesis
    unfolding strip_def by (simp only: rev.simps dropWhile.simps)
qed

text \<open>
  Claim C6. Whatever function splits the line into stages: when the line contains \<open>|\<close> and
  one of its stages is empty or made of white space only, \<open>run_command\<close> prints
  \<open>mysh: syntax error: expected command after pipe\<close> and returns; nothing else of the
  state changes, so no pipe is created and no process is forked.
\<close>

theorem empty_stage_is_rejected:
  assumes "CHR ''|'' \<in> set cmd" and "stage \<in> set (seg cmd)" and "list_all isspace stage"
  shows "run_command seg w s cmd
           = (Inr (), print_err ''mysh: syntax error: expected command after pipe'' s)
         \<and> calls (snd (run_command seg w s cmd)) = calls s
         \<and> nforks (snd (run_command seg w s cmd)) = nforks s"
proof -
  from assms(2,3) have "list_ex (\<lambda>command. strip command = []) (seg cmd)"
    using strip_blank by (auto simp: list_ex_iff)
  with assms(1) show ?thesis
    by (simp add: run_command_def print_err_def)
qed

theorem empty_stage_is_rejected_witness:
  "split_by_pipe_op ''echo hi | | wc -l'' = [''echo hi '', '' '', '' wc -l'']
   \<and> run_command split_by_pipe_op sample_world sample_shell ''echo hi | | wc -l''
       = (Inr (), print_err ''mysh: syntax error: expected command after pipe'' sample_shell)
   \<and> calls (snd (run_command split_by_pipe_op sample_world sample_shell ''echo hi | | wc -l''))
       = calls sample_shell"
proof -
  have h1: "CHR ''|'' \<in> set ''echo hi | | wc -l''"
    by simp
  have sp: "split_by_pipe_op ''echo hi | | wc -l'' = [''echo hi '', '' '', '' wc -l'']"
    by (simp add: split_by_pipe_op_def)
  then have h2: "'' '' \<in> set (split_by_pipe_op ''echo hi | | wc -l'')"
    by simp
  have h3: "list_all isspace '' ''"
    by (simp add: isspace_def code_point_def)
  from empty_stage_is_rejected
      [where seg = split_by_pipe_op and w = sample_world and s = sample_shell, OF h1 h2 h3] sp
  show ?thesis
    by blast
qed

text \<open>
  What \<open>int\<close> accepts. The decimal numeral of a natural number is read back as that
  number, also after a minus sign; and a text with a character that is not a digit, white
  space, a sign or an underscore is refused.
\<close>

lemma code_point_digit_char: "d < 10 \<Longrightarrow> code_point (digit_char d) = 48 + d"
proof -
  assume "d < 10"
  then have "d \<in> {0,1,2,3,4,5,6,7,8,9}" by auto
  then show ?thesis
    by (auto simp: digit_char_def code_point_def)
qed

lemma digit_char_props:
  assumes "d < 10"
  shows "is_ascii_digit (digit_char d) \<and> digit_val (digit_char d) = d \<and> \<not> int_space (digit_char d)
     \<and> digit_char d \<noteq> CHR ''+'' \<and> digit_char d \<noteq> CHR ''-''"
proof -
  have "code_point (CHR ''+'') = 43" "code_point (CHR ''-'') = 45"
    by (simp_all add: code_point_def)
  with code_point_digit_char [OF assms] assms show ?thesis
    by (auto simp: is_ascii_digit_def digit_val_def int_space_def)
qed

lemma dropWhile_hd: "xs \<noteq> [] \<Longrightarrow> \<not> P (hd xs) \<Longrightarrow> dropWhile P xs = xs"
  by (cases xs) auto

lemma int_digits_all:
  "list_all is_ascii_digit ds \<Longrightarrow> int_digits acc ds = Some (foldl (\<lambda>a d. a * 10 + digit_val d) acc ds)"
  by (induction acc ds rule: int_digits.induct) auto

lemma str_of_nat_digits:
  "str_of_nat n \<noteq> [] \<and> list_all is_ascii_digit (str_of_nat n)
   \<and> foldl (\<lambda>a d. a * 10 + digit_val d) 0 (str_of_nat n) = n"
proof (induction n rule: str_of_nat.induct)
  case (1 n)
  show ?case
  proof (cases "n < 10")
    case True
    with digit_char_props [of n] show ?thesis
      by (subst (1 2 3) str_of_nat.simps) simp
  next
    case False
    with 1 digit_char_props [of "n mod 10"] show ?thesis
      by (subst (1 2 3) str_of_nat.simps) simp
  qed
qed

lemma str_of_nat_ends:
  "\<not> int_space (hd (str_of_nat n)) \<and> \<not> int_space (last (str_of_nat n))
   \<and> hd (str_of_nat n) \<noteq> CHR ''+'' \<and> hd (str_of_nat n) \<noteq> CHR ''-''"
proof (induction n rule: str_of_nat.induct)
  case (1 n)
  show ?case
  proof (cases "n < 10")
    case True
    with digit_char_props [of n] show ?thesis
      by (subst (1 2 3 4) str_of_nat.simps) simp
  next
    case False
    with 1 digit_char_props [of "n mod 10"] str_of_nat_digits [of "n div 10"] show ?thesis
      by (subst (1 2 3 4) str_of_nat.simps) simp
  qed
qed

lemma int_number_str_of_nat: "int_number (str_of_nat n) = Some n"
proof -
  obtain c cs where s: "str_of_nat n = c # cs"
    using str_of_nat_digits [of n] by (cases "str_of_nat n") auto
  from str_of_nat_digits [of n] s
  have "is_ascii_digit c" "list_all is_ascii_digit cs"
    "foldl (\<lambda>a d. a * 10 + digit_val d) (digit_val c) cs = n"
    by auto
  then show ?thesis
    unfolding s by (simp add: int_number_def int_digits_all)
qed

lemma str_of_nat_length:
  "0 < d \<Longrightarrow> (length (str_of_nat k) \<le> d) = (k < 10 ^ d)"
proof (induction k arbitrary: d rule: str_of_nat.induct)
  case (1 n)
  show ?case
  proof (cases "n < 10")
    case True
    from "1.prems" have "(10::nat) ^ 1 \<le> 10 ^ d"
      by (intro power_increasing) simp_all
    with True "1.prems" show ?thesis
      by (subst str_of_nat.simps) simp
  next
    case False
    show ?thesis
    proof (cases "d = 1")
      case True
      with False show ?thesis
        using str_of_nat_digits [of "n div 10"]
        by (subst str_of_nat.simps) (cases "str_of_nat (n div 10)"; simp)
    next
      case d: False
      with "1.prems" obtain e where e: "d = Suc e" "0 < e"
        by (cases d) auto
      from "1.IH" [OF False e(2)] have "(length (str_of_nat (n div 10)) \<le> e) = (n div 10 < 10 ^ e)" .
      moreover have "(n div 10 < 10 ^ e) = (n < 10 ^ Suc e)"
        by (simp add: div_less_iff_less_mult mult.commute)
      ultimately show ?thesis
        using False e by (subst str_of_nat.simps) simp
    qed
  qed
qed

lemma filter_all: "list_all P xs \<Longrightarrow> filter P xs = xs"
  by (induction xs) auto

lemma digits_of_numeral:
  "length (filter is_ascii_digit (str_of_nat k)) = length (str_of_nat k)"
  "length (filter is_ascii_digit (CHR ''-'' # str_of_nat k)) = length (str_of_nat k)"
  using str_of_nat_digits [of k] by (simp_all add: filter_all is_ascii_digit_def code_point_def)

lemma exceeds_str_of_nat:
  "exceeds_digit_limit m (str_of_nat k) = (0 < m \<and> 10 ^ max 640 m \<le> k)"
  "exceeds_digit_limit m (CHR ''-'' # str_of_nat k) = (0 < m \<and> 10 ^ max 640 m \<le> k)"
proof -
  have "(640 < length (str_of_nat k) \<and> m < length (str_of_nat k))
          = (\<not> length (str_of_nat k) \<le> max 640 m)"
    by auto
  also have "\<dots> = (10 ^ max 640 m \<le> k)"
    by (subst str_of_nat_length) auto
  finally have key: "(640 < length (str_of_nat k) \<and> 0 < m \<and> m < length (str_of_nat k))
      = (0 < m \<and> 10 ^ max 640 m \<le> k)"
    by blast
  show "exceeds_digit_limit m (str_of_nat k) = (0 < m \<and> 10 ^ max 640 m \<le> k)"
    by (simp only: exceeds_digit_limit_def Let_def digits_of_numeral key)
  show "exceeds_digit_limit m (CHR ''-'' # str_of_nat k) = (0 < m \<and> 10 ^ max 640 m \<le> k)"
    by (simp only: exceeds_digit_limit_def Let_def digits_of_numeral key)
qed


lemma exceeds_zero: "\<not> exceeds_digit_limit 0 str"
  by (simp add: exceeds_digit_limit_def Let_def)

lemma py_int_limit:
  "py_int m str = (if exceeds_digit_limit m str then None else py_int 0 str)"
  by (simp add: py_int_def exceeds_zero)

lemma py_int_unlimited_str_of_nat: "py_int 0 (str_of_nat n) = Some (int n)"
proof -
  obtain c cs where s: "str_of_nat n = c # cs"
    using str_of_nat_digits [of n] by (cases "str_of_nat n") auto
  with str_of_nat_ends [of n] have c: "\<not> int_space c" "c \<noteq> CHR ''+''" "c \<noteq> CHR ''-''"
    and l: "\<not> int_space (last (c # cs))"
    by auto
  from l have "dropWhile int_space (rev (c # cs)) = rev (c # cs)"
    by (intro dropWhile_hd) (simp_all add: hd_rev del: rev.simps)
  with c have strip: "rev (dropWhile int_space (rev (dropWhile int_space (c # cs)))) = c # cs"
    by simp
  from int_number_str_of_nat [of n] s have "int_number (c # cs) = Some n"
    by simp
  with c show ?thesis
    unfolding py_int_def s strip by (simp add: exceeds_zero)
qed

lemma py_int_unlimited_minus_str_of_nat: "py_int 0 (CHR ''-'' # str_of_nat n) = Some (- int n)"
proof -
  have m: "\<not> int_space (CHR ''-'')"
    by (simp add: int_space_def code_point_def)
  from str_of_nat_digits [of n] str_of_nat_ends [of n]
  have l: "\<not> int_space (last (CHR ''-'' # str_of_nat n))"
    by simp
  then have "dropWhile int_space (rev (CHR ''-'' # str_of_nat n)) = rev (CHR ''-'' # str_of_nat n)"
    by (intro dropWhile_hd) (simp_all add: hd_rev del: rev.simps)
  with m have strip: "rev (dropWhile int_space (rev (dropWhile int_space (CHR ''-'' # str_of_nat n))))
      = CHR ''-'' # str_of_nat n"
    by simp
  show ?thesis
    unfolding py_int_def strip by (simp add: int_number_str_of_nat exceeds_zero)
qed

lemma py_int_str_of_nat:
  "py_int m (str_of_nat k) = (if 0 < m \<and> 10 ^ max 640 m \<le> k then None else Some (int k))"
  "py_int m (CHR ''-'' # str_of_nat k)
     = (if 0 < m \<and> 10 ^ max 640 m \<le> k then None else Some (- int k))"
  by (simp_all only: py_int_limit [of m] exceeds_str_of_nat py_int_unlimited_str_of_nat
      py_int_unlimited_minus_str_of_nat)

lemma int_digits_chars:
  "int_digits acc ds = Some n \<Longrightarrow> c \<in> set ds \<Longrightarrow> is_ascii_digit c \<or> c = CHR ''_''"
  by (induction acc ds arbitrary: n rule: int_digits.induct) (auto split: if_splits)

lemma int_number_chars:
  "int_number str = Some n \<Longrightarrow> c \<in> set str \<Longrightarrow> is_ascii_digit c \<or> c = CHR ''_''"
  by (cases str) (auto simp: int_number_def split: if_splits dest: int_digits_chars)

lemma dropWhile_keeps: "x \<in> set xs \<Longrightarrow> \<not> P x \<Longrightarrow> x \<in> set (dropWhile P xs)"
  by (induction xs) auto

lemma py_int_chars:
  assumes "py_int m str = Some n" and "c \<in> set str"
  shows "is_ascii_digit c \<or> int_space c \<or> c = CHR ''+'' \<or> c = CHR ''-'' \<or> c = CHR ''_''"
proof (rule ccontr)
  assume neg: "\<not> ?thesis"
  let ?t = "rev (dropWhile int_space (rev (dropWhile int_space str)))"
  from neg assms(2) have "c \<in> set (dropWhile int_space str)"
    by (intro dropWhile_keeps) auto
  then have "c \<in> set (rev (dropWhile int_space str))"
    by simp
  with neg have "c \<in> set (dropWhile int_space (rev (dropWhile int_space str)))"
    by (intro dropWhile_keeps) auto
  then have c: "c \<in> set ?t"
    by simp
  then obtain x xs where t: "?t = x # xs"
    by (cases ?t) auto
  from assms(1) t have "(x = CHR ''+'' \<and> (\<exists>m. int_number xs = Some m))
      \<or> (x = CHR ''-'' \<and> (\<exists>m. int_number xs = Some m))
      \<or> (\<exists>m. int_number (x # xs) = Some m)"
    unfolding py_int_def by (auto split: if_splits)
  with c t neg show False
    by (auto dest: int_number_chars)
qed

lemma py_int_refuses:
  assumes "c \<in> set str" and "\<not> is_ascii_digit c" and "\<not> int_space c" and "c \<notin> set ''+-_''"
  shows "py_int m str = None"
proof (cases "py_int m str")
  case None
  then show ?thesis .
next
  case (Some n)
  from py_int_chars [OF Some assms(1)] assms(2-4) show ?thesis
    by simp
qed

lemma exit_status_byte:
  "0 \<le> n \<Longrightarrow> n \<le> 255 \<Longrightarrow> exit_status n = n"
  "- (2 ^ 63) \<le> n \<Longrightarrow> n < 2 ^ 63 \<Longrightarrow> exit_status n = n mod 256"
  by (simp_all add: exit_status_def)

lemma exit_one_argument:
  "handle_exit_command w s [''exit'', arg]
     = (case py_int (w_int_max_str_digits w) arg of
          None \<Rightarrow> (Inr (), print_err (''exit: non-integer exit code provided: '' @ arg) s)
        | Some n \<Rightarrow> (Inl (SysExit n), s))"
  by (simp add: handle_exit_command_def split: option.splits)

text \<open>
  Claim C9, as the source has it. \<open>exit\<close> alone calls \<open>sys.exit(0)\<close>. With one argument
  it calls \<open>sys.exit\<close> with the argument's value when \<open>int\<close> accepts the argument, and
  otherwise prints \<open>exit: non-integer exit code provided\<close> and returns. The process then
  ends with the status \<open>exit_status\<close> of the value: the value itself from 0 to 255, and
  the value modulo 256 whenever it fits in 64 bits. \<open>int\<close> accepts the decimal numeral of a
  natural number, with or without a minus sign, when the interpreter has no limit on the
  digits or the numeral has no more digits than the larger of 640 and that limit; it
  refuses the longer numerals, and every text that has a character other than a digit,
  white space, a sign or an underscore. With more arguments \<open>exit\<close> prints
  \<open>exit: too many arguments\<close> and returns.
\<close>

theorem exit_builtin:
  "handle_exit_command w s [''exit''] = (Inl (SysExit 0), s)
   \<and> exit_status 0 = 0
   \<and> (py_int (w_int_max_str_digits w) arg = Some n
        \<longrightarrow> handle_exit_command w s [''exit'', arg] = (Inl (SysExit n), s))
   \<and> (py_int (w_int_max_str_digits w) arg = None
        \<longrightarrow> handle_exit_command w s [''exit'', arg]
             = (Inr (), print_err (''exit: non-integer exit code provided: '' @ arg) s))
   \<and> (0 \<le> n \<and> n \<le> 255 \<longrightarrow> exit_status n = n)
   \<and> (- (2 ^ 63) \<le> n \<and> n < 2 ^ 63 \<longrightarrow> exit_status n = n mod 256)
   \<and> (w_int_max_str_digits w = 0 \<or> k < 10 ^ max 640 (w_int_max_str_digits w)
        \<longrightarrow> handle_exit_command w s [''exit'', str_of_nat k] = (Inl (SysExit (int k)), s)
            \<and> handle_exit_command w s [''exit'', CHR ''-'' # str_of_nat k]
                = (Inl (SysExit (- int k)), s))
   \<and> (0 < w_int_max_str_digits w \<and> 10 ^ max 640 (w_int_max_str_digits w) \<le> k
        \<longrightarrow> handle_exit_command w s [''exit'', str_of_nat k]
             = (Inr (), print_err (''exit: non-integer exit code provided: '' @ str_of_nat k) s))
   \<and> ((\<exists>c \<in> set arg. \<not> is_ascii_digit c \<and> \<not> int_space c \<and> c \<notin> set ''+-_'')
        \<longrightarrow> handle_exit_command w s [''exit'', arg]
             = (Inr (), print_err (''exit: non-integer exit code provided: '' @ arg) s))
   \<and> handle_exit_command w s (''exit'' # arg # arg2 # others)
        = (Inr (), print_err ''exit: too many arguments'' s)"
proof -
  have bare: "handle_exit_command w s [''exit''] = (Inl (SysExit 0), s)"
    by (simp add: handle_exit_command_def)
  have many: "handle_exit_command w s (''exit'' # arg # arg2 # others)
        = (Inr (), print_err ''exit: too many arguments'' s)"
    by (simp add: handle_exit_command_def)
  have zero: "exit_status 0 = 0"
    by (simp add: exit_status_def)
  have refused: "(\<exists>c \<in> set arg. \<not> is_ascii_digit c \<and> \<not> int_space c \<and> c \<notin> set ''+-_'')
        \<longrightarrow> handle_exit_command w s [''exit'', arg]
             = (Inr (), print_err (''exit: non-integer exit code provided: '' @ arg) s)"
    using py_int_refuses [of _ arg "w_int_max_str_digits w"]
    by (auto simp: exit_one_argument)
  have numeral: "w_int_max_str_digits w = 0 \<or> k < 10 ^ max 640 (w_int_max_str_digits w)
        \<longrightarrow> handle_exit_command w s [''exit'', str_of_nat k] = (Inl (SysExit (int k)), s)
            \<and> handle_exit_command w s [''exit'', CHR ''-'' # str_of_nat k]
                = (Inl (SysExit (- int k)), s)"
    by (auto simp only: exit_one_argument py_int_str_of_nat option.case split: if_splits)
  have long: "0 < w_int_max_str_digits w \<and> 10 ^ max 640 (w_int_max_str_digits w) \<le> k
        \<longrightarrow> handle_exit_command w s [''exit'', str_of_nat k]
             = (Inr (), print_err (''exit: non-integer exit code provided: '' @ str_of_nat k) s)"
    by (auto simp only: exit_one_argument py_int_str_of_nat option.case split: if_splits)
  have accepted: "py_int (w_int_max_str_digits w) arg = Some n
        \<longrightarrow> handle_exit_command w s [''exit'', arg] = (Inl (SysExit n), s)"
    by (simp add: exit_one_argument)
  have rejected: "py_int (w_int_max_str_digits w) arg = None
        \<longrightarrow> handle_exit_command w s [''exit'', arg]
             = (Inr (), print_err (''exit: non-integer exit code provided: '' @ arg) s)"
    by (simp add: exit_one_argument)
  from bare many zero accepted rejected refused numeral long exit_status_byte [of n] show ?thesis
    by blast
qed


theorem exit_builtin_witness:
  "py_int (w_int_max_str_digits sample_world) ''3'' = Some 3
   \<and> handle_exit_command sample_world sample_shell [''exit'', ''3'']
       = (Inl (SysExit 3), sample_shell)
   \<and> exit_status 3 = 3
   \<and> - (2 ^ 63) \<le> (3 :: int) \<and> (3 :: int) < 2 ^ 63
   \<and> exit_status 3 = 3 mod 256
   \<and> (42 :: nat) < 10 ^ max 640 (w_int_max_str_digits sample_world)
   \<and> handle_exit_command sample_world sample_shell [''exit'', str_of_nat 42]
       = (Inl (SysExit (int 42)), sample_shell)
   \<and> py_int (w_int_max_str_digits sample_world) ''abc'' = None
   \<and> handle_exit_command sample_world sample_shell [''exit'', ''abc'']
       = (Inr (), print_err (''exit: non-integer exit code provided: '' @ ''abc'') sample_shell)
   \<and> (10 :: nat) ^ max 640 (w_int_max_str_digits sample_world) \<le> 10 ^ 4300
   \<and> handle_exit_command sample_world sample_shell [''exit'', str_of_nat (10 ^ 4300)]
       = (Inr (), print_err (''exit: non-integer exit code provided: '' @ str_of_nat (10 ^ 4300))
                    sample_shell)
   \<and> fst (shell_loop split_by_pipe_op sample_world sample_shell [''exit 3'', ''pwd''])
       = Inl (SysExit 3)
   \<and> fst (shell_loop split_by_pipe_op sample_world sample_shell [''exit abc'', ''exit 1 2''])
       = Inr ()"
proof -
  have lim: "w_int_max_str_digits sample_world = 4300"
    by (simp add: sample_world_def)
  have h1: "py_int (w_int_max_str_digits sample_world) ''3'' = Some 3"
    by (simp add: lim py_int_def exceeds_digit_limit_def int_number_def int_space_def
        code_point_def is_ascii_digit_def digit_val_def)
  have h2: "(0 :: int) \<le> 3 \<and> (3 :: int) \<le> 255"
    by simp
  have h7: "- (2 ^ 63) \<le> (3 :: int) \<and> (3 :: int) < 2 ^ 63"
    by simp
  have "(10 :: nat) ^ 2 \<le> 10 ^ max 640 (w_int_max_str_digits sample_world)"
    by (intro power_increasing) simp_all
  then have h3: "(42 :: nat) < 10 ^ max 640 (w_int_max_str_digits sample_world)"
    by simp
  have h4: "py_int (w_int_max_str_digits sample_world) ''abc'' = None"
    by (simp add: lim py_int_def exceeds_digit_limit_def int_number_def int_space_def
        code_point_def is_ascii_digit_def digit_val_def)
  have h5: "0 < w_int_max_str_digits sample_world"
    by (simp add: lim)
  have "max 640 (w_int_max_str_digits sample_world) = 4300"
    by (simp add: lim)
  then have h6: "(10 :: nat) ^ max 640 (w_int_max_str_digits sample_world) \<le> 10 ^ 4300"
    by (simp only: order_refl)
  have l1: "fst (shell_loop split_by_pipe_op sample_world sample_shell [''exit 3'', ''pwd''])
              = Inl (SysExit 3)"
    by code_simp
  have l2: "fst (shell_loop split_by_pipe_op sample_world sample_shell [''exit abc'', ''exit 1 2''])
              = Inr ()"
    by code_simp
  from exit_builtin [of sample_world sample_shell "''3''" 3 42]
    exit_builtin [of sample_world sample_shell "''abc''" 3 "10 ^ 4300"]
    h1 h2 h3 h4 h5 h6 h7 l1 l2
  show ?thesis
    by blast
qed

lemma digits_of_replicate:
  "is_ascii_digit c \<Longrightarrow> length (filter is_ascii_digit (replicate n c)) = n"
  by (induction n) auto

text \<open>
  The claim as it is stated fails in both directions of its condition. \<open>exit 256\<close> and
  \<open>exit -1\<close> have arguments that are integers in base 10, and the process ends with the
  status 0 and 255, not with the argument's value. The numeral of 4301 digits is an
  integer in base 10, and under the default limit of 4300 digits \<open>exit\<close> prints the usage
  error and does not end the process.
\<close>

theorem exit_value_is_not_the_status:
  "handle_exit_command sample_world sample_shell [''exit'', ''256'']
     = (Inl (SysExit 256), sample_shell)
   \<and> exit_status 256 = 0
   \<and> handle_exit_command sample_world sample_shell [''exit'', ''-1'']
     = (Inl (SysExit (- 1)), sample_shell)
   \<and> exit_status (- 1) = 255
   \<and> fst (shell_loop split_by_pipe_op sample_world sample_shell [''exit 256'', ''pwd''])
     = Inl (SysExit 256)
   \<and> list_all is_ascii_digit (replicate 4301 CHR ''1'')
   \<and> handle_exit_command sample_world sample_shell [''exit'', replicate 4301 CHR ''1'']
     = (Inr (), print_err (''exit: non-integer exit code provided: '' @ replicate 4301 CHR ''1'')
                  sample_shell)"
proof -
  have lim: "w_int_max_str_digits sample_world = 4300"
    by (simp add: sample_world_def)
  have one: "is_ascii_digit CHR ''1''"
    by (simp add: is_ascii_digit_def code_point_def)
  have a: "py_int 4300 ''256'' = Some 256"
    by (simp add: py_int_def exceeds_digit_limit_def int_number_def int_space_def
        code_point_def is_ascii_digit_def digit_val_def)
  have b: "py_int 4300 ''-1'' = Some (- 1)"
    by (simp add: py_int_def exceeds_digit_limit_def int_number_def int_space_def
        code_point_def is_ascii_digit_def digit_val_def)
  have c: "py_int 4300 (replicate 4301 CHR ''1'') = None"
    by (simp add: py_int_def exceeds_digit_limit_def digits_of_replicate [OF one])
  have d: "exit_status 256 = 0" "exit_status (- 1) = 255"
    by (simp_all add: exit_status_def)
  have e: "fst (shell_loop split_by_pipe_op sample_world sample_shell [''exit 256'', ''pwd''])
             = Inl (SysExit 256)"
    by code_simp
  have f: "list_all is_ascii_digit (replicate 4301 CHR ''1'')"
    using one by (simp add: list_all_iff)
  from a b c d e f show ?thesis
    by (simp add: exit_one_argument lim)
qed

section \<open>The working directory\<close>

text \<open>\<open>handle_cd_command\<close> never writes \<open>OLDPWD\<close>.\<close>

lemma cd_leaves_oldpwd:
  "environ (snd (handle_cd_command w s args)) ''OLDPWD'' = environ s ''OLDPWD''"
  by (auto simp: handle_cd_command_def cd_to_def print_out_def print_err_def Let_def
      split: sum.splits option.splits exn.splits)

text \<open>
  Claim C3 does not hold of the source: \<open>cd -\<close> reads \<open>OLDPWD\<close>, but no change of
  directory writes it. Started without \<open>OLDPWD\<close>, the lines \<open>cd /tmp\<close>, \<open>cd /\<close>,
  \<open>cd -\<close> leave the logical working directory at \<open>/\<close>, not \<open>/tmp\<close>, and \<open>OLDPWD\<close> unset.
\<close>

theorem cd_dash_stays:
  "logical_pwd (snd (shell_loop split_by_pipe_op sample_world sample_shell
                       [''cd /tmp'', ''cd /'', ''cd -''])) = ''/''
   \<and> environ (snd (shell_loop split_by_pipe_op sample_world sample_shell
                       [''cd /tmp'', ''cd /'', ''cd -''])) ''OLDPWD'' = None
   \<and> environ (snd (shell_loop split_by_pipe_op sample_world sample_shell
                       [''cd /tmp'', ''cd /'', ''cd -''])) ''PWD'' = Some ''/''"
  by code_simp

section \<open>Pipelines\<close>








text \<open>
  Claim C1 does not hold of the source: the child rebinds its standard streams and closes
  nothing. In the pipeline of the line \<open>ls | sort | wc -l\<close>, with the pipes on the descriptors 3, 4
  and 5, 6, the process that replaces itself by \<open>ls\<close> (fork returns 0 twice: the child of
  stage 0, then the child the launcher forks) still holds 3, 4, 5 and 6, and the one that
  replaces itself by \<open>sort\<close> still holds 3, 5 and 6.
\<close>

theorem pipeline_child_keeps_descriptors:
  "fst (execute_pipeline (sample_world\<lparr>w_fork := \<lambda>k. ForkReturns 0\<rparr>) sample_shell
          [''ls '', '' sort '', '' wc -l'']) = Inl (Exec ''ls'' [''ls''])
   \<and> fds (snd (execute_pipeline (sample_world\<lparr>w_fork := \<lambda>k. ForkReturns 0\<rparr>) sample_shell
          [''ls '', '' sort '', '' wc -l'']))
       = [(0, Tty), (1, PipeWrite 0), (2, Tty), (3, PipeRead 0), (4, PipeWrite 0),
          (5, PipeRead 1), (6, PipeWrite 1)]
   \<and> fst (execute_pipeline
          (sample_world\<lparr>w_fork := \<lambda>k. if k = 0 then ForkReturns 100 else ForkReturns 0\<rparr>)
          sample_shell [''ls '', '' sort '', '' wc -l'']) = Inl (Exec ''sort'' [''sort''])
   \<and> fds (snd (execute_pipeline
          (sample_world\<lparr>w_fork := \<lambda>k. if k = 0 then ForkReturns 100 else ForkReturns 0\<rparr>)
          sample_shell [''ls '', '' sort '', '' wc -l'']))
       = [(0, PipeRead 0), (1, PipeWrite 1), (2, Tty), (3, PipeRead 0), (5, PipeRead 1),
          (6, PipeWrite 1)]"
  by code_simp

text \<open>
  Claim C5 does not hold of the source: \<open>shlex.split\<close> is called in the parent inside the
  loop that forks, and its \<open>ValueError\<close> is not caught. In the pipeline of the stages
  \<open>echo a\<close> and \<open>cat 'x\<close> the parent forks the child 100 for the first stage, raises at
  the second, and never waits: its calls are one pipe, one fork and one close. (The stages
  are those of the line \<open>echo a | cat 'x\<close>.)
\<close>

theorem pipeline_forked_child_not_reaped:
  "fst (execute_pipeline sample_world sample_shell [''echo a '', '' cat '' @ [SQ] @ ''x''])
     = Inl (Raise (ValueError ''No closing quotation''))
   \<and> calls (snd (execute_pipeline sample_world sample_shell
                   [''echo a '', '' cat '' @ [SQ] @ ''x'']))
     = [SysPipe 3 4, SysFork 100, SysClose 4]"
  by code_simp

text \<open>
  Claim C2 does not hold of the source: the \<open>ValueError\<close> of an unterminated quote in a
  pipeline stage leaves \<open>run_command\<close> and the loop of \<open>run_shell\<close>, which catches
  \<open>EOFError\<close> and \<open>KeyboardInterrupt\<close> only; the line after it is not processed.
\<close>

theorem pipeline_quote_error_ends_shell:
  "fst (execute_pipeline sample_world sample_shell [''echo hi '', '' cat '' @ [SQ] @ ''x''])
     = Inl (Raise (ValueError ''No closing quotation''))
   \<and> fst (run_command split_by_pipe_op sample_world sample_shell
            (''echo hi | cat '' @ [SQ] @ ''x''))
     = Inl (Raise (ValueError ''No closing quotation''))
   \<and> fst (shell_loop split_by_pipe_op sample_world sample_shell
            [''echo hi | cat '' @ [SQ] @ ''x'', ''pwd''])
     = Inl (Raise (ValueError ''No closing quotation''))
   \<and> out_lines (snd (shell_loop split_by_pipe_op sample_world sample_shell
            [''echo hi | cat '' @ [SQ] @ ''x'', ''pwd''])) = []"
  by code_simp

text \<open>Two more lines that end the interpreter: \<open>var -\<close>, and \<open>cd\<close> when \<open>HOME\<close> is unset.\<close>

lemma other_lines_end_shell:
  "fst (run_command split_by_pipe_op sample_world sample_shell ''var -'')
     = Inl (Raise (IndexError ''string index out of range''))
   \<and> fst (run_command split_by_pipe_op sample_world sample_shell ''cd'')
     = Inl (Raise (KeyError ''HOME''))"
  by code_simp

text \<open>
  The parent of a pipeline. In a process in which no fork returns 0, whenever
  \<open>execute_pipeline\<close> returns, the children it waited for are exactly the children it
  forked, each once and in the order of the forks; and when every fork returns a child
  identifier there are as many of them as stages.
\<close>

lemma waited_pids_append: "waited_pids (xs @ ys) = waited_pids xs @ waited_pids ys"
  by (induction xs rule: waited_pids.induct) auto

lemma forked_pids_append: "forked_pids (xs @ ys) = forked_pids xs @ forked_pids ys"
  by (induction xs rule: forked_pids.induct) auto

lemma os_close_pids:
  "waited_pids (calls (snd (os_close fd s))) = waited_pids (calls s)
   \<and> forked_pids (calls (snd (os_close fd s))) = forked_pids (calls s)"
  by (simp add: os_close_def waited_pids_append forked_pids_append)

lemma os_pipe_pids:
  "waited_pids (calls (snd (os_pipe w s))) = waited_pids (calls s)
   \<and> forked_pids (calls (snd (os_pipe w s))) = forked_pids (calls s)"
  by (simp add: os_pipe_def Let_def waited_pids_append forked_pids_append)

lemma create_pipes_pids:
  "waited_pids (calls (snd (create_pipes w k pipe_fds s))) = waited_pids (calls s)
   \<and> forked_pids (calls (snd (create_pipes w k pipe_fds s))) = forked_pids (calls s)"
proof (induction k arbitrary: pipe_fds s)
  case 0
  then show ?case by simp
next
  case (Suc k)
  show ?case
  proof (cases "os_pipe w s")
    case (Pair r s1)
    with os_pipe_pids [of w s] Suc [of _ s1] show ?thesis
      by (cases r) auto
  qed
qed

lemma close_pipes_pids:
  "waited_pids (calls (close_pipes pipe_fds s)) = waited_pids (calls s)
   \<and> forked_pids (calls (close_pipes pipe_fds s)) = forked_pids (calls s)"
proof (induction pipe_fds arbitrary: s)
  case Nil
  then show ?case by simp
next
  case (Cons p rest)
  show ?case
  proof (cases "os_close (fst p) s")
    case (Pair r s1)
    with os_close_pids [of "fst p" s] os_close_pids [of "snd p" s1] Cons [of s1]
      Cons [of "snd (os_close (snd p) s1)"]
    show ?thesis
      by (cases r) auto
  qed
qed

lemma parent_stage_pids:
  "waited_pids (calls (snd (parent_stage s pipe_fds n i))) = waited_pids (calls s)
   \<and> forked_pids (calls (snd (parent_stage s pipe_fds n i))) = forked_pids (calls s)"
  by (auto simp: parent_stage_def then_do_def pipe_fd_def os_close_def waited_pids_append
      forked_pids_append split: prod.splits sum.splits)

lemma wait_all_pids:
  "waited_pids (calls (wait_all pids s)) = waited_pids (calls s) @ pids
   \<and> forked_pids (calls (wait_all pids s)) = forked_pids (calls s)"
  unfolding wait_all_def
  by (induction pids arbitrary: s) (auto simp: os_waitpid_def waited_pids_append forked_pids_append)

lemma fork_stage_pids:
  assumes "\<And>k. w_fork w k \<noteq> ForkReturns 0"
    and "fork_stage w s pipe_fds n i cmd = (Inr step, s')"
  shows "waited_pids (calls s') = waited_pids (calls s)
    \<and> forked_pids (calls s') = forked_pids (calls s) @ (case step of Some pid \<Rightarrow> [pid] | None \<Rightarrow> [])
    \<and> ((\<forall>k. \<exists>pid. 0 < pid \<and> w_fork w k = ForkReturns pid) \<longrightarrow> step \<noteq> None)"
proof (cases "shlex_split cmd")
  case (Inl msg)
  with assms(2) show ?thesis
    by (simp add: fork_stage_def)
next
  case (Inr args)
  show ?thesis
  proof (cases "w_fork w (nforks s)")
    case (ForkRaises m)
    with assms(2) Inr show ?thesis
      by (simp add: fork_stage_def os_fork_def then_do_def)
  next
    case (ForkReturns pid)
    with assms(1) [of "nforks s"] have nz: "pid \<noteq> 0"
      by auto
    let ?s1 = "s\<lparr>nforks := Suc (nforks s), calls := calls s @ [SysFork pid]\<rparr>"
    show ?thesis
    proof (cases "pid > 0")
      case True
      with assms(2) Inr ForkReturns nz
      have "s' = snd (parent_stage ?s1 pipe_fds n i)" "step = Some pid"
        by (auto simp: fork_stage_def os_fork_def then_do_def split: prod.splits sum.splits)
      with parent_stage_pids [of ?s1 pipe_fds n i] True show ?thesis
        by (simp add: waited_pids_append forked_pids_append)
    next
      case False
      with assms(2) Inr ForkReturns nz
      have "s' = print_err ''mysh: failed to fork process'' ?s1" "step = None"
        by (auto simp: fork_stage_def os_fork_def then_do_def)
      moreover have "\<not> (\<forall>k. \<exists>p. 0 < p \<and> w_fork w k = ForkReturns p)"
      proof
        assume "\<forall>k. \<exists>p. 0 < p \<and> w_fork w k = ForkReturns p"
        then obtain p where "0 < p" "w_fork w (nforks s) = ForkReturns p"
          by blast
        with ForkReturns False show False
          by simp
      qed
      ultimately show ?thesis
        using False by (simp add: print_err_def waited_pids_append forked_pids_append)
    qed
  qed
qed

lemma fork_stages_pids:
  assumes "\<And>k. w_fork w k \<noteq> ForkReturns 0"
    and "fork_stages w pipe_fds n i commands pids s = (Inr pids', s')"
  shows "\<exists>new. pids' = pids @ new
    \<and> waited_pids (calls s') = waited_pids (calls s)
    \<and> forked_pids (calls s') = forked_pids (calls s) @ new
    \<and> ((\<forall>k. \<exists>pid. 0 < pid \<and> w_fork w k = ForkReturns pid) \<longrightarrow> length new = length commands)"
  using assms(2)
proof (induction commands arbitrary: i pids s)
  case Nil
  then show ?case by simp
next
  case (Cons cmd rest)
  show ?case
  proof (cases "fork_stage w s pipe_fds n i cmd")
    case (Pair r s1)
    show ?thesis
    proof (cases r)
      case (Inl a)
      with Cons.prems Pair show ?thesis by simp
    next
      case (Inr step)
      from fork_stage_pids [OF assms(1), of s pipe_fds n i cmd step s1] Pair Inr
      have st: "waited_pids (calls s1) = waited_pids (calls s)"
        "forked_pids (calls s1) = forked_pids (calls s) @ (case step of Some pid \<Rightarrow> [pid] | None \<Rightarrow> [])"
        "(\<forall>k. \<exists>pid. 0 < pid \<and> w_fork w k = ForkReturns pid) \<longrightarrow> step \<noteq> None"
        by auto
      show ?thesis
      proof (cases step)
        case None
        with Cons.prems Pair Inr st show ?thesis by simp
      next
        case (Some pid)
        with Cons.prems Pair Inr
        have "fork_stages w pipe_fds n (Suc i) rest (pids @ [pid]) s1 = (Inr pids', s')"
          by simp
        from Cons.IH [OF this] obtain new where "pids' = (pids @ [pid]) @ new"
          "waited_pids (calls s') = waited_pids (calls s1)"
          "forked_pids (calls s') = forked_pids (calls s1) @ new"
          "(\<forall>k. \<exists>pid. 0 < pid \<and> w_fork w k = ForkReturns pid) \<longrightarrow> length new = length rest"
          by blast
        with st Some show ?thesis
          by (intro exI [of _ "pid # new"]) simp
      qed
    qed
  qed
qed

theorem parent_waits_for_forked_children:
  assumes "\<And>k. w_fork w k \<noteq> ForkReturns 0"
    and "execute_pipeline w s commands = (Inr (), s')"
  shows "\<exists>pids. forked_pids (calls s') = forked_pids (calls s) @ pids
    \<and> waited_pids (calls s') = waited_pids (calls s) @ pids
    \<and> ((\<forall>k. \<exists>pid. 0 < pid \<and> w_fork w k = ForkReturns pid) \<longrightarrow> length pids = length commands)"
proof -
  obtain r1 s1 where cp: "create_pipes w (length commands - 1) [] s = (r1, s1)"
    by (cases "create_pipes w (length commands - 1) [] s")
  with assms(2) obtain pipe_fds where r1: "r1 = Inr pipe_fds"
    by (cases r1) (auto simp: execute_pipeline_def then_do_def)
  obtain r2 s2 where fs: "fork_stages w pipe_fds (length commands) 0 commands [] s1 = (r2, s2)"
    by (cases "fork_stages w pipe_fds (length commands) 0 commands [] s1")
  with assms(2) cp r1 obtain pids where r2: "r2 = Inr pids"
    by (cases r2) (auto simp: execute_pipeline_def then_do_def)
  from assms(2) cp r1 fs r2 have s': "s' = wait_all pids (close_pipes pipe_fds s2)"
    by (simp add: execute_pipeline_def then_do_def)
  from fork_stages_pids [OF assms(1), of pipe_fds "length commands" 0 commands "[]" s1 pids s2] fs r2
  have "waited_pids (calls s2) = waited_pids (calls s1)"
    "forked_pids (calls s2) = forked_pids (calls s1) @ pids"
    "(\<forall>k. \<exists>pid. 0 < pid \<and> w_fork w k = ForkReturns pid) \<longrightarrow> length pids = length commands"
    by auto
  moreover from create_pipes_pids [of w "length commands - 1" "[]" s] cp
  have "waited_pids (calls s1) = waited_pids (calls s)" "forked_pids (calls s1) = forked_pids (calls s)"
    by auto
  ultimately show ?thesis
    using close_pipes_pids [of pipe_fds s2] wait_all_pids [of pids "close_pipes pipe_fds s2"] s'
    by (intro exI [of _ pids]) simp
qed

theorem parent_waits_for_forked_children_witness:
  "fst (execute_pipeline sample_world sample_shell [''ls '', '' sort '', '' wc -l'']) = Inr ()
   \<and> (\<exists>pids. forked_pids (calls (snd (execute_pipeline sample_world sample_shell
                  [''ls '', '' sort '', '' wc -l''])))
               = forked_pids (calls sample_shell) @ pids
           \<and> waited_pids (calls (snd (execute_pipeline sample_world sample_shell
                  [''ls '', '' sort '', '' wc -l''])))
               = waited_pids (calls sample_shell) @ pids
           \<and> length pids = 3)"
proof -
  have h1: "w_fork sample_world k \<noteq> ForkReturns 0" for k
    by (simp add: sample_world_def)
  have h3: "\<forall>k. \<exists>pid. 0 < pid \<and> w_fork sample_world k = ForkReturns pid"
    by (simp add: sample_world_def)
  have f: "fst (execute_pipeline sample_world sample_shell [''ls '', '' sort '', '' wc -l'']) = Inr ()"
    by code_simp
  then have h2: "execute_pipeline sample_world sample_shell [''ls '', '' sort '', '' wc -l'']
      = (Inr (), snd (execute_pipeline sample_world sample_shell [''ls '', '' sort '', '' wc -l'']))"
    by (metis prod.collapse)
  from parent_waits_for_forked_children [OF h1 h2] h3 obtain pids
    where "forked_pids (calls (snd (execute_pipeline sample_world sample_shell
                  [''ls '', '' sort '', '' wc -l''])))
               = forked_pids (calls sample_shell) @ pids"
      "waited_pids (calls (snd (execute_pipeline sample_world sample_shell
                  [''ls '', '' sort '', '' wc -l''])))
               = waited_pids (calls sample_shell) @ pids"
      "length pids = length [''ls '', '' sort '', '' wc -l'']"
    by blast
  with f show ?thesis
    by (intro conjI exI [of _ pids]) simp_all
qed

end
